theory Spec2Isabelle
  imports Main
begin

section \<open>Python values, exceptions and dictionaries\<close>

text \<open>
  An HTTP response object of aiohttp (\<open>web.StreamResponse\<close> and its subclasses): status,
  body bytes, content type and headers. Strings of the model are byte strings, so
  \<open>encode('utf-8')\<close> is the identity.
\<close>

record response =
  resp_status :: int
  resp_body :: string
  resp_content_type :: string
  resp_headers :: "(string \<times> string) list"

text \<open>
  The values that travel through the ORM and the dispatcher. \<open>PRequest\<close> is the aiohttp
  request object when it is passed on as a value; \<open>PDict\<close> is a dictionary with string
  keys (a JSON object, a handler's result); \<open>PObject b d\<close> is any other object that is not
  None (a bound method, a list, a dictionary of Fields), with its truth value \<open>b\<close> and a
  description \<open>d\<close>.
\<close>

datatype pyval =
    PNone
  | PBool bool
  | PInt int
  | PStr string
  | PBytes string
  | PTuple "pyval list"
  | PDict "(string \<times> pyval) list"
  | PResponse response
  | PRequest
  | PObject bool string

text \<open>
  Exceptions. \<open>ValueError t v\<close> carries the message template and what is formatted into
  it: \<open>ValueError(t % str(v))\<close> in \<open>findAll\<close>, and \<open>ValueError(t % (a, b))\<close> for the
  pair \<open>v = (a, b)\<close> in \<open>has_request_arg\<close>. \<open>DriverError\<close> is any exception raised by the
  database driver or by another library call, \<open>APIError\<close> the domain error of the
  handlers with its \<open>error\<close>, \<open>data\<close> and \<open>message\<close>.
\<close>

datatype exn =
    RuntimeError string
  | ValueError string pyval
  | KeyError string
  | AttributeError string
  | TypeError string
  | IndexError
  | DriverError string
  | APIError string string string

text \<open>Truth value of a Python value (\<open>if v:\<close>).\<close>

fun truthy :: "pyval \<Rightarrow> bool" where
  "truthy PNone = False"
| "truthy (PBool b) = b"
| "truthy (PInt i) = (i \<noteq> 0)"
| "truthy (PStr s) = (s \<noteq> [])"
| "truthy (PBytes s) = (s \<noteq> [])"
| "truthy (PTuple vs) = (vs \<noteq> [])"
| "truthy (PDict d) = (d \<noteq> [])"
| "truthy (PResponse r) = True"
| "truthy PRequest = True"
| "truthy (PObject b d) = b"

text \<open>
  \<open>isinstance(v, int)\<close>: \<open>bool\<close> is a subclass of \<open>int\<close>, and \<open>int_value\<close> is the
  number such a value compares as.
\<close>

fun isinstance_int :: "pyval \<Rightarrow> bool" where
  "isinstance_int (PInt i) = True"
| "isinstance_int (PBool b) = True"
| "isinstance_int v = False"

fun int_value :: "pyval \<Rightarrow> int" where
  "int_value (PInt i) = i"
| "int_value (PBool b) = (if b then 1 else 0)"
| "int_value v = 0"

text \<open>Keyword arguments \<open>**kw\<close>, and \<open>kw.get(k, None)\<close>.\<close>

type_synonym kwargs = "(string \<times> pyval) list"

definition kw_get :: "kwargs \<Rightarrow> string \<Rightarrow> pyval" where
  "kw_get kws k = (case map_of kws k of None \<Rightarrow> PNone | Some v \<Rightarrow> v)"

text \<open>\<open>str.join\<close>.\<close>

fun join :: "string \<Rightarrow> string list \<Rightarrow> string" where
  "join sep [] = []"
| "join sep [x] = x"
| "join sep (x # y # ys) = x @ sep @ join sep (y # ys)"

text \<open>A dictionary in insertion order: \<open>d[k] = v\<close> and \<open>d.pop(k)\<close>.\<close>

fun dict_set :: "('k \<times> 'v) list \<Rightarrow> 'k \<Rightarrow> 'v \<Rightarrow> ('k \<times> 'v) list" where
  "dict_set [] k v = [(k, v)]"
| "dict_set ((k', v') # d) k v =
     (if k' = k then (k, v) # d else (k', v') # dict_set d k v)"

definition dict_pop :: "('k \<times> 'v) list \<Rightarrow> 'k \<Rightarrow> ('k \<times> 'v) list" where
  "dict_pop d k = filter (\<lambda>(k', v). k' \<noteq> k) d"

section \<open>Field descriptors (orm.py, class Field)\<close>

text \<open>
  A default is a plain value (\<open>Value PNone\<close> when there is none) or a zero-argument
  callable such as \<open>time.time\<close> or \<open>next_id\<close>, which reads and changes the outside world
  \<open>'w\<close>.
\<close>

datatype 'w dflt = Value pyval | Callable "'w \<Rightarrow> pyval \<times> 'w"

record 'w field =
  field_class :: string
  field_name :: "string option"
  column_type :: string
  primary_key :: bool
  default_value :: "'w dflt"

text \<open>\<open>Field.__str__\<close>: \<open>'<%s, %s:%s>' % (class name, column_type, name)\<close>.\<close>

definition field_str :: "'w field \<Rightarrow> string" where
  "field_str f =
     ''<'' @ field_class f @ '', '' @ column_type f @ '':'' @
     (case field_name f of None \<Rightarrow> ''None'' | Some n \<Rightarrow> n) @ ''>''"

text \<open>
  The field classes, with the arguments of their constructors in the order of the source;
  a caller who leaves an argument out passes its default. (\<open>FloatField\<close> differs from
  \<open>IntegerField\<close> in the column type \<open>real\<close> and the default 0.0 only.)
\<close>

definition StringField :: "string option \<Rightarrow> bool \<Rightarrow> 'w dflt \<Rightarrow> string \<Rightarrow> 'w field" where
  "StringField name pk dflt ddl =
     \<lparr> field_class = ''StringField'', field_name = name, column_type = ddl,
       primary_key = pk, default_value = dflt \<rparr>"

definition BooleanField :: "string option \<Rightarrow> 'w dflt \<Rightarrow> 'w field" where
  "BooleanField name dflt =
     \<lparr> field_class = ''BooleanField'', field_name = name, column_type = ''boolean'',
       primary_key = False, default_value = dflt \<rparr>"

definition IntegerField :: "string option \<Rightarrow> bool \<Rightarrow> 'w dflt \<Rightarrow> 'w field" where
  "IntegerField name pk dflt =
     \<lparr> field_class = ''IntegerField'', field_name = name, column_type = ''biginit'',
       primary_key = pk, default_value = dflt \<rparr>"

definition TextField :: "string option \<Rightarrow> 'w dflt \<Rightarrow> 'w field" where
  "TextField name dflt =
     \<lparr> field_class = ''TextField'', field_name = name, column_type = ''text'',
       primary_key = False, default_value = dflt \<rparr>"

section \<open>Schema derivation (orm.py, ModelMetaclass.__new__)\<close>

text \<open>
  The class body is the dictionary \<open>attrs\<close>, in iteration order. An attribute is a Field,
  a string, or some other object, of which only the truth value and the \<open>str()\<close> rendering
  matter here (both are read only for \<open>__table__\<close>).
\<close>

datatype 'w attr = FieldAttr "'w field" | StrAttr string | OtherAttr bool string

fun attr_truthy :: "'w attr \<Rightarrow> bool" where
  "attr_truthy (FieldAttr f) = True"
| "attr_truthy (StrAttr s) = (s \<noteq> [])"
| "attr_truthy (OtherAttr b s) = b"

fun attr_str :: "'w attr \<Rightarrow> string" where
  "attr_str (FieldAttr f) = field_str f"
| "attr_str (StrAttr s) = s"
| "attr_str (OtherAttr b s) = s"

text \<open>\<open>tableName = attrs.get('__table__', None) or name\<close>\<close>

definition table_name :: "string \<Rightarrow> (string \<times> 'w attr) list \<Rightarrow> string" where
  "table_name name attrs =
     (case map_of attrs ''__table__'' of
        None \<Rightarrow> name
      | Some v \<Rightarrow> if attr_truthy v then attr_str v else name)"

text \<open>
  The loop over \<open>attrs.items()\<close>. Its state is \<open>(mappings, fields, primaryKey)\<close>, with
  \<open>fields\<close> written \<open>flds\<close>; \<open>primaryKey\<close> is \<open>None\<close> or an attribute name, and \<open>if primaryKey:\<close> tests its truth
  value, which is false for \<open>None\<close> and for the empty string.
\<close>

definition key_truthy :: "string option \<Rightarrow> bool" where
  "key_truthy pk = (case pk of None \<Rightarrow> False | Some k \<Rightarrow> k \<noteq> [])"

type_synonym 'w scan_state = "(string \<times> 'w field) list \<times> string list \<times> string option"

fun scan_attrs :: "(string \<times> 'w attr) list \<Rightarrow> 'w scan_state \<Rightarrow> exn + 'w scan_state" where
  "scan_attrs [] st = Inr st"
| "scan_attrs ((k, FieldAttr f) # rest) (mappings, flds, primaryKey) =
     (if primary_key f then
        (if key_truthy primaryKey
         then Inl (RuntimeError (''Duplicate primary key for field: '' @ k))
         else scan_attrs rest (dict_set mappings k f, flds, Some k))
      else scan_attrs rest (dict_set mappings k f, flds @ [k], primaryKey))"
| "scan_attrs ((k, StrAttr s) # rest) st = scan_attrs rest st"
| "scan_attrs ((k, OtherAttr b s) # rest) st = scan_attrs rest st"

text \<open>\<open>escaped_fields = list(map(lambda f: r"`%s`" % f, fields))\<close>\<close>

definition escaped :: "string \<Rightarrow> string" where
  "escaped f = ''`'' @ f @ ''`''"

text \<open>
  The assignments of the update statement,
  \<open>map(lambda f: '`%s`=?' % (mappings.get(f).name or f), fields)\<close>. A field that is not in
  \<open>mappings\<close> makes \<open>mappings.get(f)\<close> None, and reading \<open>.name\<close> of it raises.
\<close>

definition column_name :: "'w field \<Rightarrow> string \<Rightarrow> string" where
  "column_name fl f = (case field_name fl of None \<Rightarrow> f | Some n \<Rightarrow> if n = [] then f else n)"

fun update_assignments :: "(string \<times> 'w field) list \<Rightarrow> string list \<Rightarrow> exn + string list" where
  "update_assignments mappings [] = Inr []"
| "update_assignments mappings (f # fs) =
     (case map_of mappings f of
        None \<Rightarrow> Inl (AttributeError ''name'')
      | Some fl \<Rightarrow>
          (case update_assignments mappings fs of
             Inl e \<Rightarrow> Inl e
           | Inr cs \<Rightarrow> Inr ((''`'' @ column_name fl f @ ''`=?'') # cs)))"

text \<open>\<open>create_args_string(num)\<close>: the loop appends \<open>'?'\<close> for each \<open>n\<close> in \<open>range(num)\<close>.\<close>

definition create_args_string :: "nat \<Rightarrow> string" where
  "create_args_string num = join '', '' (foldl (\<lambda>L n. L @ [''?'']) [] [0..<num])"

text \<open>The class that the metaclass returns for an entity type.\<close>

record 'w model_class =
  cls_attrs :: "(string \<times> 'w attr) list"
  cls_mappings :: "(string \<times> 'w field) list"
  cls_table :: string
  cls_primary_key :: string
  cls_fields :: "string list"
  cls_select :: string
  cls_update :: string
  cls_delete :: string
  cls_insert :: string

text \<open>
  The class named \<open>Model\<close> is returned as it is, with no derivation; every other class is an
  entity type.
\<close>

datatype 'w pyclass = BaseModel "(string \<times> 'w attr) list" | Entity "'w model_class"

definition ModelMetaclass_new :: "string \<Rightarrow> (string \<times> 'w attr) list \<Rightarrow> exn + 'w pyclass" where
  "ModelMetaclass_new name attrs =
     (if name = ''Model'' then Inr (BaseModel attrs)
      else
        let tableName = table_name name attrs in
        case scan_attrs attrs ([], [], None) of
          Inl e \<Rightarrow> Inl e
        | Inr (mappings, flds, primaryKey) \<Rightarrow>
            (case (if key_truthy primaryKey then primaryKey else None) of
               None \<Rightarrow> Inl (RuntimeError ''Priamry key not found.'')
             | Some pk \<Rightarrow>
                 let attrs' = foldl dict_pop attrs (map fst mappings);
                     escaped_fields = map escaped flds
                 in
                 (case update_assignments mappings flds of
                    Inl e \<Rightarrow> Inl e
                  | Inr assignments \<Rightarrow>
                      Inr (Entity \<lparr>
                        cls_attrs = attrs',
                        cls_mappings = mappings,
                        cls_table = tableName,
                        cls_primary_key = pk,
                        cls_fields = flds,
                        cls_select = ''select `'' @ pk @ ''`,'' @ join '','' escaped_fields @
                                     '' from `'' @ tableName @ ''`'',
                        cls_update = ''update `'' @ tableName @ ''` set '' @
                                     join '', '' assignments @ '' where `'' @ pk @ ''`=?'',
                        cls_delete = ''delete from `'' @ tableName @ ''` where `'' @ pk @ ''`=?'',
                        cls_insert = ''insert into `'' @ tableName @ ''` ('' @
                                     join '', '' escaped_fields @ '', `'' @ pk @ ''`) values ('' @
                                     create_args_string (length escaped_fields + 1) @ '')''
                      \<rparr>))))"

text \<open>
  The declared fields of a class body: the names of the attributes that are Fields with
  the primary-key flag, those of the Fields without it, and all Fields with their names,
  each in declaration order.
\<close>

fun is_pk_attr :: "string \<times> 'w attr \<Rightarrow> bool" where
  "is_pk_attr (k, FieldAttr f) = primary_key f"
| "is_pk_attr (k, StrAttr s) = False"
| "is_pk_attr (k, OtherAttr b s) = False"

fun is_nonkey_attr :: "string \<times> 'w attr \<Rightarrow> bool" where
  "is_nonkey_attr (k, FieldAttr f) = (\<not> primary_key f)"
| "is_nonkey_attr (k, StrAttr s) = False"
| "is_nonkey_attr (k, OtherAttr b s) = False"

definition pk_names :: "(string \<times> 'w attr) list \<Rightarrow> string list" where
  "pk_names attrs = map fst (filter is_pk_attr attrs)"

definition nonkey_names :: "(string \<times> 'w attr) list \<Rightarrow> string list" where
  "nonkey_names attrs = map fst (filter is_nonkey_attr attrs)"

fun declared_fields :: "(string \<times> 'w attr) list \<Rightarrow> (string \<times> 'w field) list" where
  "declared_fields [] = []"
| "declared_fields ((k, FieldAttr f) # rest) = (k, f) # declared_fields rest"
| "declared_fields ((k, StrAttr s) # rest) = declared_fields rest"
| "declared_fields ((k, OtherAttr b s) # rest) = declared_fields rest"

text \<open>
  What the loop leaves behind for a class body: \<open>mappings\<close> holds every declared Field
  under its name; the loop raises at the second primary key, and otherwise ends with the
  non-key names and the primary key, if there was one.
\<close>

definition all_mappings :: "(string \<times> 'w attr) list \<Rightarrow> (string \<times> 'w field) list" where
  "all_mappings attrs = foldl (\<lambda>d (k, f). dict_set d k f) [] (declared_fields attrs)"

definition scan_result ::
  "(string \<times> 'w field) list \<Rightarrow> string list \<Rightarrow> string list \<Rightarrow> exn + 'w scan_state" where
  "scan_result m fl pks =
     (if 2 \<le> length pks then Inl (RuntimeError (''Duplicate primary key for field: '' @ pks ! 1))
      else Inr (m, fl, if pks = [] then None else Some (hd pks)))"

text \<open>
  The class that derivation gives for a body with the single primary key \<open>pk\<close>, written
  out.
\<close>

definition entity_class :: "string \<Rightarrow> (string \<times> 'w attr) list \<Rightarrow> string \<Rightarrow> 'w model_class" where
  "entity_class name attrs pk =
     \<lparr> cls_attrs = foldl dict_pop attrs (map fst (all_mappings attrs)),
       cls_mappings = all_mappings attrs,
       cls_table = table_name name attrs,
       cls_primary_key = pk,
       cls_fields = nonkey_names attrs,
       cls_select = ''select `'' @ pk @ ''`,'' @ join '','' (map escaped (nonkey_names attrs)) @
                    '' from `'' @ table_name name attrs @ ''`'',
       cls_update = ''update `'' @ table_name name attrs @ ''` set '' @
                    join '', '' (map (\<lambda>f. ''`'' @ column_name (the (map_of (all_mappings attrs) f)) f @ ''`=?'')
                                    (nonkey_names attrs)) @
                    '' where `'' @ pk @ ''`=?'',
       cls_delete = ''delete from `'' @ table_name name attrs @ ''` where `'' @ pk @ ''`=?'',
       cls_insert = ''insert into `'' @ table_name name attrs @ ''` ('' @
                    join '', '' (map escaped (nonkey_names attrs)) @ '', `'' @ pk @ ''`) values ('' @
                    create_args_string (length (nonkey_names attrs) + 1) @ '')'' \<rparr>"

text \<open>
  Two class bodies for the examples: a user table with a string key, and a class whose
  only field is not a key. Their defaults do not read the world.
\<close>

definition user_attrs :: "(string \<times> unit attr) list" where
  "user_attrs =
     [(''__table__'', StrAttr ''users''),
      (''id'', FieldAttr (StringField None True (Value PNone) ''varchar(50)'')),
      (''email'', FieldAttr (StringField None False (Value PNone) ''varchar(50)'')),
      (''admin'', FieldAttr (BooleanField None (Value (PBool False)))),
      (''image'', FieldAttr (StringField None False (Value (PStr ''about:blank'')) ''varchar(500)''))]"

definition keyless_attrs :: "(string \<times> unit attr) list" where
  "keyless_attrs = [(''email'', FieldAttr (StringField None False (Value PNone) ''varchar(50)''))]"

section \<open>Data access runtime (orm.py, select and execute)\<close>

text \<open>
  The state of the process, as far as the claims look at it: the outside world \<open>'w\<close> (the
  database server behind the connection, the clock and whatever else a default generator
  reads), the calls made to the driver so far, the records written by \<open>logging.warn\<close> and
  \<open>logging.warning\<close> (each a message template and the value formatted into it; the
  \<open>info\<close> and \<open>debug\<close> records are left out), and the list objects that callers share with
  the ORM, by address.
\<close>

datatype event =
    Acquire
  | Release
  | Begin
  | Cursor
  | DictCursor
  | Execute string "pyval list"
  | FetchMany int
  | FetchAll
  | Close
  | Commit
  | Rollback

record 'w state =
  world :: 'w
  trace :: "event list"
  warnings :: "(string \<times> pyval) list"
  store :: "nat \<Rightarrow> pyval list"

text \<open>A statement of the program: it returns a value or raises, and changes the state.\<close>

type_synonym ('a, 's) prog = "'s \<Rightarrow> (exn + 'a) \<times> 's"

definition bnd :: "('a, 's) prog \<Rightarrow> ('a \<Rightarrow> ('b, 's) prog) \<Rightarrow> ('b, 's) prog" where
  "bnd m f s = (case m s of (Inl e, s') \<Rightarrow> (Inl e, s') | (Inr x, s') \<Rightarrow> f x s')"

definition ret :: "'a \<Rightarrow> ('a, 's) prog" where
  "ret x s = (Inr x, s)"

text \<open>
  The driver (aiomysql) is outside the repository: each of its calls is a function on the
  world that returns or raises. \<open>cur_execute\<close> returns the \<open>rowcount\<close> the cursor shows
  afterwards; a row is a dictionary.
\<close>

type_synonym row = "string \<rightharpoonup> pyval"

record 'w driver =
  pool_acquire :: "'w \<Rightarrow> (exn + unit) \<times> 'w"
  pool_release :: "'w \<Rightarrow> 'w"
  conn_begin :: "'w \<Rightarrow> (exn + unit) \<times> 'w"
  conn_cursor :: "'w \<Rightarrow> (exn + unit) \<times> 'w"
  cur_execute :: "string \<Rightarrow> pyval list \<Rightarrow> 'w \<Rightarrow> (exn + int) \<times> 'w"
  cur_fetchmany :: "int \<Rightarrow> 'w \<Rightarrow> (exn + row list) \<times> 'w"
  cur_fetchall :: "'w \<Rightarrow> (exn + row list) \<times> 'w"
  cur_close :: "'w \<Rightarrow> (exn + unit) \<times> 'w"
  conn_commit :: "'w \<Rightarrow> (exn + unit) \<times> 'w"
  conn_rollback :: "'w \<Rightarrow> (exn + unit) \<times> 'w"

text \<open>A driver call: the call is recorded, then it runs on the world.\<close>

definition call :: "event \<Rightarrow> ('w \<Rightarrow> (exn + 'a) \<times> 'w) \<Rightarrow> ('a, 'w state) prog" where
  "call ev op s =
     (case op (world s) of (r, w) \<Rightarrow> (r, s\<lparr>world := w, trace := trace s @ [ev]\<rparr>))"

text \<open>Leaving the \<open>with\<close> block gives the connection back to the pool, on every path.\<close>

definition release :: "'w driver \<Rightarrow> 'w state \<Rightarrow> 'w state" where
  "release drv s = s\<lparr>world := pool_release drv (world s), trace := trace s @ [Release]\<rparr>"

definition warn :: "string \<Rightarrow> pyval \<Rightarrow> 'w state \<Rightarrow> 'w state" where
  "warn t v s = s\<lparr>warnings := warnings s @ [(t, v)]\<rparr>"

text \<open>\<open>sql.replace('?', '%s')\<close>\<close>

fun replace_qmark :: "string \<Rightarrow> string" where
  "replace_qmark [] = []"
| "replace_qmark (c # cs) =
     (if c = CHR ''?'' then ''%s'' @ replace_qmark cs else c # replace_qmark cs)"

text \<open>
  \<open>select(sql, args, size=None)\<close>. There is no handler: the first call that raises ends
  it. \<open>if size:\<close> is false for \<open>None\<close> and for 0.
\<close>

definition select :: "'w driver \<Rightarrow> string \<Rightarrow> pyval list \<Rightarrow> int option \<Rightarrow> (row list, 'w state) prog" where
  "select drv sql args sz s =
     (case call Acquire (pool_acquire drv) s of
        (Inl e, s0) \<Rightarrow> (Inl e, s0)
      | (Inr u, s0) \<Rightarrow>
          (case bnd (call DictCursor (conn_cursor drv)) (\<lambda>u.
                bnd (call (Execute (replace_qmark sql) args)
                          (cur_execute drv (replace_qmark sql) args)) (\<lambda>n.
                bnd (case sz of
                       None \<Rightarrow> call FetchAll (cur_fetchall drv)
                     | Some k \<Rightarrow> if k \<noteq> 0 then call (FetchMany k) (cur_fetchmany drv k)
                                else call FetchAll (cur_fetchall drv)) (\<lambda>rs.
                bnd (call Close (cur_close drv)) (\<lambda>u. ret rs)))) s0 of
             (r, s1) \<Rightarrow> (r, release drv s1)))"

text \<open>
  The body of the \<open>try\<close> in \<open>execute\<close>: open a cursor, run the statement, read the row
  count, close the cursor, and commit unless autocommit is on.
\<close>

definition execute_try :: "'w driver \<Rightarrow> string \<Rightarrow> pyval list \<Rightarrow> bool \<Rightarrow> (int, 'w state) prog" where
  "execute_try drv sql args autocommit =
     bnd (call Cursor (conn_cursor drv)) (\<lambda>u.
     bnd (call (Execute (replace_qmark sql) args)
               (cur_execute drv (replace_qmark sql) args)) (\<lambda>affected.
     bnd (call Close (cur_close drv)) (\<lambda>u.
     if \<not> autocommit then bnd (call Commit (conn_commit drv)) (\<lambda>u. ret affected)
     else ret affected)))"

text \<open>
  \<open>execute(sql, args, autocommit=True)\<close>. \<open>conn.begin()\<close> is called before the \<open>try\<close>;
  the handler \<open>except BaseException as e\<close> calls \<open>conn.rollback()\<close> unless autocommit is
  on and then runs \<open>raise e\<close>. A rollback that raises leaves the handler with its own
  exception, so \<open>raise e\<close> is not reached.
\<close>

definition execute :: "'w driver \<Rightarrow> string \<Rightarrow> pyval list \<Rightarrow> bool \<Rightarrow> (int, 'w state) prog" where
  "execute drv sql args autocommit s =
     (case call Acquire (pool_acquire drv) s of
        (Inl e, s0) \<Rightarrow> (Inl e, s0)
      | (Inr u, s0) \<Rightarrow>
          (case (case (if \<not> autocommit then call Begin (conn_begin drv) s0 else (Inr (), s0)) of
                   (Inl e, s1) \<Rightarrow> (Inl e, s1)
                 | (Inr u, s1) \<Rightarrow>
                     (case execute_try drv sql args autocommit s1 of
                        (Inr affected, s2) \<Rightarrow> (Inr affected, s2)
                      | (Inl e, s2) \<Rightarrow>
                          if \<not> autocommit then
                            (case call Rollback (conn_rollback drv) s2 of
                               (Inl e', s3) \<Rightarrow> (Inl e', s3)
                             | (Inr u, s3) \<Rightarrow> (Inl e, s3))
                          else (Inl e, s2))) of
             (r, s4) \<Rightarrow> (r, release drv s4)))"

text \<open>
  The statements with their bound arguments that reach the driver between two states: the
  \<open>cur.execute\<close> calls of the trace after \<open>s\<close>.
\<close>

fun is_statement :: "event \<Rightarrow> bool" where
  "is_statement (Execute q args) = True"
| "is_statement ev = False"

definition statements :: "'w state \<Rightarrow> 'w state \<Rightarrow> event list" where
  "statements s s' = filter is_statement (drop (length (trace s)) (trace s'))"

section \<open>Entity instances (orm.py, class Model)\<close>

text \<open>
  An instance is a dictionary from attribute names to values; \<open>__setattr__\<close> writes into
  this dictionary, so the instance has no attributes of its own besides.
\<close>

type_synonym entity = "string \<rightharpoonup> pyval"

text \<open>
  An attribute of the class body as a value: a string is itself, None is the object that
  is false and prints as \<open>None\<close>, anything else is an object.
\<close>

fun attr_value :: "'w attr \<Rightarrow> pyval" where
  "attr_value (FieldAttr f) = PObject True (field_str f)"
| "attr_value (StrAttr s) = PStr s"
| "attr_value (OtherAttr b s) = (if \<not> b \<and> s = ''None'' then PNone else PObject b s)"

text \<open>
  What ordinary attribute lookup finds for a name on an instance of a derived class,
  before \<open>__getattr__\<close> is tried: the attributes the metaclass sets on the class, then what
  is left of the class body, then the attributes of the base classes (\<open>Model\<close>, \<open>dict\<close>,
  \<open>object\<close>), which are the parameter \<open>base\<close>.
\<close>

definition class_attribute ::
  "(string \<Rightarrow> pyval option) \<Rightarrow> 'w model_class \<Rightarrow> string \<Rightarrow> pyval option" where
  "class_attribute base cls key =
     (if key = ''__mappings__'' then Some (PObject (cls_mappings cls \<noteq> []) ''__mappings__'')
      else if key = ''__table__'' then Some (PStr (cls_table cls))
      else if key = ''__primary_key__'' then Some (PStr (cls_primary_key cls))
      else if key = ''__fields__'' then Some (PObject (cls_fields cls \<noteq> []) ''__fields__'')
      else if key = ''__select__'' then Some (PStr (cls_select cls))
      else if key = ''__update__'' then Some (PStr (cls_update cls))
      else if key = ''__delete__'' then Some (PStr (cls_delete cls))
      else if key = ''__insert__'' then Some (PStr (cls_insert cls))
      else case map_of (cls_attrs cls) key of
             Some a \<Rightarrow> Some (attr_value a)
           | None \<Rightarrow> base key)"

text \<open>
  \<open>getValue\<close> is \<open>getattr(self, key, None)\<close>: an attribute of the class wins; otherwise
  \<open>__getattr__\<close> reads the dictionary and raises AttributeError for a missing key, which
  \<open>getattr\<close> turns into None.
\<close>

definition getValue ::
  "(string \<Rightarrow> pyval option) \<Rightarrow> 'w model_class \<Rightarrow> entity \<Rightarrow> string \<Rightarrow> pyval" where
  "getValue base cls self key =
     (case class_attribute base cls key of
        Some v \<Rightarrow> v
      | None \<Rightarrow> (case self key of None \<Rightarrow> PNone | Some v \<Rightarrow> v))"

text \<open>
  \<open>getValueOrDefault\<close>: a value that is None is replaced by the field's default, when
  that is not None; a callable default is called. The result is stored on the instance
  with \<open>setattr\<close>. \<open>self.__mappings__[key]\<close> raises KeyError for an unknown key.
\<close>

definition getValueOrDefault ::
  "(string \<Rightarrow> pyval option) \<Rightarrow> 'w model_class \<Rightarrow> string \<Rightarrow> (pyval, entity \<times> 'w state) prog" where
  "getValueOrDefault base cls key = (\<lambda>(self, s).
     let v = getValue base cls self key in
     if v = PNone then
       (case map_of (cls_mappings cls) key of
          None \<Rightarrow> (Inl (KeyError key), (self, s))
        | Some fld \<Rightarrow>
            (case default_value fld of
               Value d \<Rightarrow>
                 if d \<noteq> PNone then (Inr d, (self(key \<mapsto> d), s)) else (Inr v, (self, s))
             | Callable g \<Rightarrow>
                 (case g (world s) of (d, w) \<Rightarrow> (Inr d, (self(key \<mapsto> d), s\<lparr>world := w\<rparr>)))))
     else (Inr v, (self, s)))"

text \<open>\<open>list(map(f, xs))\<close> for an \<open>f\<close> with effects: in order, ending at the first raise.\<close>

fun map_prog :: "('a \<Rightarrow> ('b, 's) prog) \<Rightarrow> 'a list \<Rightarrow> ('b list, 's) prog" where
  "map_prog f [] s = (Inr [], s)"
| "map_prog f (x # xs) s =
     (case f x s of
        (Inl e, s') \<Rightarrow> (Inl e, s')
      | (Inr y, s') \<Rightarrow>
          (case map_prog f xs s' of
             (Inl e, s'') \<Rightarrow> (Inl e, s'')
           | (Inr ys, s'') \<Rightarrow> (Inr (y # ys), s'')))"

text \<open>The argument list that \<open>save\<close> builds: the non-key fields in order, then the key.\<close>

definition save_args ::
  "(string \<Rightarrow> pyval option) \<Rightarrow> 'w model_class \<Rightarrow> (pyval list, entity \<times> 'w state) prog" where
  "save_args base cls =
     bnd (map_prog (getValueOrDefault base cls) (cls_fields cls)) (\<lambda>args.
     bnd (getValueOrDefault base cls (cls_primary_key cls)) (\<lambda>pkv. ret (args @ [pkv])))"

definition save ::
  "'w driver \<Rightarrow> (string \<Rightarrow> pyval option) \<Rightarrow> 'w model_class \<Rightarrow> (unit, entity \<times> 'w state) prog" where
  "save drv base cls st =
     (case save_args base cls st of
        (Inl e, st1) \<Rightarrow> (Inl e, st1)
      | (Inr args, (self, s1)) \<Rightarrow>
          (case execute drv (cls_insert cls) args True s1 of
             (Inl e, s2) \<Rightarrow> (Inl e, (self, s2))
           | (Inr rows, s2) \<Rightarrow>
               (Inr (), (self, if rows \<noteq> 1
                               then warn ''failed to insert record: affected rows: %s'' (PInt rows) s2
                               else s2))))"

text \<open>The argument list that \<open>update\<close> builds, with \<open>getValue\<close>.\<close>

definition update_args ::
  "(string \<Rightarrow> pyval option) \<Rightarrow> 'w model_class \<Rightarrow> entity \<Rightarrow> pyval list" where
  "update_args base cls self =
     map (getValue base cls self) (cls_fields cls) @ [getValue base cls self (cls_primary_key cls)]"

definition update ::
  "'w driver \<Rightarrow> (string \<Rightarrow> pyval option) \<Rightarrow> 'w model_class \<Rightarrow> (unit, entity \<times> 'w state) prog" where
  "update drv base cls = (\<lambda>(self, s).
     (case execute drv (cls_update cls) (update_args base cls self) True s of
        (Inl e, s2) \<Rightarrow> (Inl e, (self, s2))
      | (Inr rows, s2) \<Rightarrow>
          (Inr (), (self, if rows \<noteq> 1
                          then warn ''failed to update by primary key: affected rows: %s'' (PInt rows) s2
                          else s2))))"

definition remove ::
  "'w driver \<Rightarrow> (string \<Rightarrow> pyval option) \<Rightarrow> 'w model_class \<Rightarrow> (unit, entity \<times> 'w state) prog" where
  "remove drv base cls = (\<lambda>(self, s).
     (case execute drv (cls_delete cls) [getValue base cls self (cls_primary_key cls)] True s of
        (Inl e, s2) \<Rightarrow> (Inl e, (self, s2))
      | (Inr rows, s2) \<Rightarrow>
          (Inr (), (self, if rows \<noteq> 1
                          then warn ''failed to remove by primary key: affected rows: %s'' (PInt rows) s2
                          else s2))))"

section \<open>Queries (orm.py, Model.findAll)\<close>

text \<open>
  The local variable \<open>args\<close> of \<open>findAll\<close> refers to the caller's list, which lives in the
  store and is seen by the caller, or to the list that \<open>args = []\<close> creates, which nobody
  else holds.
\<close>

datatype args_ref = Fresh "pyval list" | Shared nat

definition args_read :: "args_ref \<Rightarrow> 'w state \<Rightarrow> pyval list" where
  "args_read r s = (case r of Fresh xs \<Rightarrow> xs | Shared a \<Rightarrow> store s a)"

text \<open>\<open>args.append(v)\<close> is \<open>args_extend r [v]\<close>; \<open>args.extend(vs)\<close> changes the list in place.\<close>

definition args_extend :: "args_ref \<Rightarrow> pyval list \<Rightarrow> 'w state \<Rightarrow> args_ref \<times> 'w state" where
  "args_extend r vs s =
     (case r of
        Fresh xs \<Rightarrow> (Fresh (xs @ vs), s)
      | Shared a \<Rightarrow> (Shared a, s\<lparr>store := (store s)(a := store s a @ vs)\<rparr>))"

text \<open>\<open>' '.join(sql)\<close> raises TypeError for an item that is not a string.\<close>

fun str_items :: "pyval list \<Rightarrow> exn + string list" where
  "str_items [] = Inr []"
| "str_items (PStr x # vs) = (case str_items vs of Inl e \<Rightarrow> Inl e | Inr xs \<Rightarrow> Inr (x # xs))"
| "str_items (v # vs) = Inl (TypeError ''sequence item: expected str instance'')"

definition py_join :: "string \<Rightarrow> pyval list \<Rightarrow> exn + string" where
  "py_join sep vs = (case str_items vs of Inl e \<Rightarrow> Inl e | Inr xs \<Rightarrow> Inr (join sep xs))"

text \<open>
  The last two lines of \<open>findAll\<close>: \<open>rs = yield from select(' '.join(sql), args)\<close> and
  \<open>return [cls(**r) for r in rs]\<close>; an entity made from a row is that dictionary.
\<close>

definition run_query :: "'w driver \<Rightarrow> pyval list \<Rightarrow> args_ref \<Rightarrow> (entity list, 'w state) prog" where
  "run_query drv sql r s =
     (case py_join '' '' sql of
        Inl e \<Rightarrow> (Inl e, s)
      | Inr q \<Rightarrow> select drv q (args_read r s) None s)"

text \<open>
  \<open>findAll(cls, where=None, args=None, **kw)\<close>. \<open>args\<close> is None or the address of the
  caller's list; \<open>kw\<close> holds the other keyword arguments, of which \<open>orderBy\<close> and \<open>limit\<close>
  are read. \<open>findAll_sql\<close> is the list \<open>sql\<close> when the limit is reached: the select
  template, then \<open>where\<close> and \<open>order by\<close> with their texts when these are given.
\<close>

definition findAll_sql :: "'w model_class \<Rightarrow> pyval \<Rightarrow> kwargs \<Rightarrow> pyval list" where
  "findAll_sql cls wher kw =
     (let sql0 = [PStr (cls_select cls)];
          sql1 = (if truthy wher then sql0 @ [PStr ''where'', wher] else sql0);
          orderBy = kw_get kw ''orderBy''
      in if truthy orderBy then sql1 @ [PStr ''order by'', orderBy] else sql1)"

definition findAll ::
  "'w driver \<Rightarrow> 'w model_class \<Rightarrow> pyval \<Rightarrow> nat option \<Rightarrow> kwargs \<Rightarrow> (entity list, 'w state) prog" where
  "findAll drv cls wher args kw s =
     (let sql = findAll_sql cls wher kw;
          r = (case args of None \<Rightarrow> Fresh [] | Some a \<Rightarrow> Shared a);
          limit = kw_get kw ''limit''
      in
      if limit \<noteq> PNone then
        (if isinstance_int limit then
           (case args_extend r [limit] s of
              (r', s') \<Rightarrow> run_query drv (sql @ [PStr ''limit'', PStr ''?'']) r' s')
         else
           (case limit of
              PTuple [a, b] \<Rightarrow>
                (case args_extend r [a, b] s of
                   (r', s') \<Rightarrow> run_query drv (sql @ [PStr ''limit'', PStr ''?,?'']) r' s')
            | _ \<Rightarrow> (Inl (ValueError ''Invalid limit value: %s'' limit), s)))
      else run_query drv sql r s)"

text \<open>
  The values a limit stands for: the row cap, or the offset and the count; no values for
  any other shape.
\<close>

definition limit_values :: "pyval \<Rightarrow> pyval list option" where
  "limit_values limit =
     (if isinstance_int limit then Some [limit]
      else case limit of PTuple [a, b] \<Rightarrow> Some [a, b] | _ \<Rightarrow> None)"

text \<open>The list \<open>args\<close> stands for when \<open>findAll\<close> is entered.\<close>

definition args_before :: "nat option \<Rightarrow> 'w state \<Rightarrow> pyval list" where
  "args_before args s = (case args of None \<Rightarrow> [] | Some a \<Rightarrow> store s a)"

section \<open>Handler signatures (web_frame.py)\<close>

datatype kind = POSITIONAL_ONLY | POSITIONAL_OR_KEYWORD | VAR_POSITIONAL | KEYWORD_ONLY | VAR_KEYWORD

text \<open>
  One entry of \<open>inspect.signature(fn).parameters\<close>; \<open>param_has_default\<close> is false when
  \<open>param.default == inspect.Parameter.empty\<close>.
\<close>

record param =
  param_name :: string
  param_kind :: kind
  param_has_default :: bool

text \<open>
  A URL handler: its name, \<open>str(inspect.signature(fn))\<close>, its parameters, and what
  calling it with \<open>**kw\<close> does.
\<close>

record 'w handler_fn =
  fn_name :: string
  fn_sig :: string
  fn_params :: "param list"
  fn_call :: "kwargs \<Rightarrow> (pyval, 'w state) prog"

definition get_required_kw_args :: "param list \<Rightarrow> string list" where
  "get_required_kw_args ps =
     map param_name (filter (\<lambda>p. param_kind p = KEYWORD_ONLY \<and> \<not> param_has_default p) ps)"

definition get_named_kw_args :: "param list \<Rightarrow> string list" where
  "get_named_kw_args ps = map param_name (filter (\<lambda>p. param_kind p = KEYWORD_ONLY) ps)"

text \<open>The next two return True or fall off the end, which is None and reads as false.\<close>

definition has_named_kw_args :: "param list \<Rightarrow> bool" where
  "has_named_kw_args ps = (\<exists>p \<in> set ps. param_kind p = KEYWORD_ONLY)"

definition has_var_kw_arg :: "param list \<Rightarrow> bool" where
  "has_var_kw_arg ps = (\<exists>p \<in> set ps. param_kind p = VAR_KEYWORD)"

text \<open>
  The loop of \<open>has_request_arg\<close>. Its error message is
  \<open>'... in function: %s%s' % (fn.__name__, str(sig))\<close>: the format and the pair of the
  name and the signature.
\<close>

fun has_request_arg_loop :: "string \<Rightarrow> string \<Rightarrow> param list \<Rightarrow> bool \<Rightarrow> exn + bool" where
  "has_request_arg_loop fname sig [] found = Inr found"
| "has_request_arg_loop fname sig (p # ps) found =
     (if param_name p = ''request'' then has_request_arg_loop fname sig ps True
      else if found \<and> (param_kind p \<noteq> VAR_POSITIONAL \<and> param_kind p \<noteq> KEYWORD_ONLY \<and>
                        param_kind p \<noteq> VAR_KEYWORD)
      then Inl (ValueError
                  ''request parameter must be the last named parameter in function: %s%s''
                  (PTuple [PStr fname, PStr sig]))
      else has_request_arg_loop fname sig ps found)"

definition has_request_arg :: "'w handler_fn \<Rightarrow> exn + bool" where
  "has_request_arg fn = has_request_arg_loop (fn_name fn) (fn_sig fn) (fn_params fn) False"

section \<open>Argument binding (web_frame.py, class RequestHandler)\<close>

record 'w RequestHandler =
  h_func :: "kwargs \<Rightarrow> (pyval, 'w state) prog"
  h_has_request_arg :: bool
  h_has_var_kw_arg :: bool
  h_has_named_kw_args :: bool
  h_named_kw_args :: "string list"
  h_required_kw_args :: "string list"

definition RequestHandler_init :: "'w handler_fn \<Rightarrow> exn + 'w RequestHandler" where
  "RequestHandler_init fn =
     (case has_request_arg fn of
        Inl e \<Rightarrow> Inl e
      | Inr b \<Rightarrow>
          Inr \<lparr> h_func = fn_call fn,
                h_has_request_arg = b,
                h_has_var_kw_arg = has_var_kw_arg (fn_params fn),
                h_has_named_kw_args = has_named_kw_args (fn_params fn),
                h_named_kw_args = get_named_kw_args (fn_params fn),
                h_required_kw_args = get_required_kw_args (fn_params fn) \<rparr>)"

text \<open>
  The request, as the dispatcher reads it: \<open>req_json\<close> and \<open>req_post\<close> are what
  \<open>request.json()\<close> and \<open>request.post()\<close> give (or raise), \<open>req_query\<close> is
  \<open>parse.parse_qs(request.query_string, True).items()\<close>, \<open>req_user\<close> is
  \<open>request.__user__\<close>.
\<close>

record request =
  req_method :: string
  req_content_type :: string
  req_json :: "exn + pyval"
  req_post :: "exn + kwargs"
  req_query_string :: string
  req_query :: "(string \<times> string list) list"
  req_match_info :: "(string \<times> string) list"
  req_user :: pyval

text \<open>
  A constructor of the aiohttp library, called with positional and keyword arguments. The
  library is outside the repository, so the dispatcher and the response normalizer take
  its constructors as parameters.
\<close>

type_synonym ctor = "pyval list \<Rightarrow> kwargs \<Rightarrow> exn + response"

text \<open>A step of a function body either returns from the function or goes on.\<close>

datatype 'a step = Return pyval | Next 'a

text \<open>\<open>return C(msg)\<close> for a response class \<open>C\<close>: the constructor may raise.\<close>

definition return_new :: "ctor \<Rightarrow> pyval list \<Rightarrow> kwargs \<Rightarrow> exn + 'a step" where
  "return_new c pos kws = (case c pos kws of Inl e \<Rightarrow> Inl e | Inr r \<Rightarrow> Inr (Return (PResponse r)))"

definition lower_char :: "char \<Rightarrow> char" where
  "lower_char c =
     (let n = (of_char c :: nat) in if 65 \<le> n \<and> n \<le> 90 then char_of (n + 32) else c)"

definition lower :: "string \<Rightarrow> string" where
  "lower s = map lower_char s"

definition startswith :: "string \<Rightarrow> string \<Rightarrow> bool" where
  "startswith s p = (take (length p) s = p)"

text \<open>The POST branch: the keyword mapping comes from the body.\<close>

definition parse_post :: "ctor \<Rightarrow> request \<Rightarrow> exn + kwargs option step" where
  "parse_post HTTPBadRequest request =
     (if req_content_type request = [] then
        return_new HTTPBadRequest [PStr ''Missing Content-Type.''] []
      else
        let ct = lower (req_content_type request) in
        if startswith ct ''application/json'' then
          (case req_json request of
             Inl e \<Rightarrow> Inl e
           | Inr (PDict params) \<Rightarrow> Inr (Next (Some params))
           | Inr v \<Rightarrow> return_new HTTPBadRequest [PStr ''JSON body must be object.''] [])
        else if startswith ct ''application/x-www-form-urlencoded'' \<or>
                startswith ct ''multipart/form-data'' then
          (case req_post request of
             Inl e \<Rightarrow> Inl e
           | Inr params \<Rightarrow> Inr (Next (Some (foldl (\<lambda>d (k, v). dict_set d k v) [] params))))
        else
          return_new HTTPBadRequest
            [PStr (''Unsupported Content-Type: '' @ req_content_type request)] [])"

text \<open>The GET branch: \<open>for k, v in parse.parse_qs(qs, True).items(): kw[k] = v[0]\<close>.\<close>

fun query_kw :: "(string \<times> string list) list \<Rightarrow> kwargs \<Rightarrow> exn + kwargs" where
  "query_kw [] kw = Inr kw"
| "query_kw ((k, []) # rest) kw = Inl IndexError"
| "query_kw ((k, v0 # vs) # rest) kw = query_kw rest (dict_set kw k (PStr v0))"

definition parse_request :: "ctor \<Rightarrow> 'w RequestHandler \<Rightarrow> request \<Rightarrow> exn + kwargs option step" where
  "parse_request HTTPBadRequest h request =
     (if h_has_var_kw_arg h \<or> h_has_named_kw_args h \<or> h_required_kw_args h \<noteq> [] then
        (case (if req_method request = ''POST'' then parse_post HTTPBadRequest request
               else Inr (Next None)) of
           Inl e \<Rightarrow> Inl e
         | Inr (Return v) \<Rightarrow> Inr (Return v)
         | Inr (Next kw) \<Rightarrow>
             if req_method request = ''GET'' \<and> req_query_string request \<noteq> [] then
               (case query_kw (req_query request) [] of
                  Inl e \<Rightarrow> Inl e
                | Inr kw' \<Rightarrow> Inr (Next (Some kw')))
             else Inr (Next kw))
      else Inr (Next None))"

text \<open>
  \<open>remove all unamed kw\<close>: the copy holds the named keyword arguments that the mapping
  has.
\<close>

definition named_copy :: "string list \<Rightarrow> kwargs \<Rightarrow> kwargs" where
  "named_copy names kw =
     foldl (\<lambda>copy name. case map_of kw name of None \<Rightarrow> copy | Some v \<Rightarrow> dict_set copy name v)
           [] names"

text \<open>
  \<open>check named arg\<close>: every entry of \<open>match_info\<close> is written into the mapping, with a
  warning when the name is there already.
\<close>

fun overlay :: "(string \<times> string) list \<Rightarrow> kwargs \<Rightarrow> 'w state \<Rightarrow> kwargs \<times> 'w state" where
  "overlay [] kw s = (kw, s)"
| "overlay ((k, v) # rest) kw s =
     overlay rest (dict_set kw k (PStr v))
       (if map_of kw k \<noteq> None
        then warn ''Duplicate arg name in named arg and kw args: %s'' (PStr k) s
        else s)"

text \<open>
  The value \<open>match_info\<close> holds for a name; were a name there twice, the loop would leave
  the last value.
\<close>

definition path_value :: "request \<Rightarrow> string \<Rightarrow> string option" where
  "path_value request k = map_of (rev (req_match_info request)) k"

text \<open>The mapping the handler is called with, from the parsed one.\<close>

definition reconcile :: "'w RequestHandler \<Rightarrow> request \<Rightarrow> kwargs option \<Rightarrow> 'w state \<Rightarrow> kwargs \<times> 'w state" where
  "reconcile h request parsed s =
     (case (case parsed of
              None \<Rightarrow> (foldl (\<lambda>d (k, v). dict_set d k (PStr v)) [] (req_match_info request), s)
            | Some kw \<Rightarrow>
                overlay (req_match_info request)
                  (if \<not> h_has_var_kw_arg h \<and> h_named_kw_args h \<noteq> []
                   then named_copy (h_named_kw_args h) kw else kw) s) of
        (kw1, s1) \<Rightarrow>
          ((if h_has_request_arg h then dict_set kw1 ''request'' PRequest else kw1), s1))"

text \<open>\<open>check required kw\<close>: the first required name that the mapping lacks.\<close>

definition missing_arg :: "string list \<Rightarrow> kwargs \<Rightarrow> string option" where
  "missing_arg required kw = find (\<lambda>name. map_of kw name = None) required"

text \<open>
  \<open>RequestHandler.__call__\<close>. An APIError of the handler becomes a dictionary; any other
  exception goes on to the caller.
\<close>

definition RequestHandler_call :: "ctor \<Rightarrow> 'w RequestHandler \<Rightarrow> request \<Rightarrow> (pyval, 'w state) prog" where
  "RequestHandler_call HTTPBadRequest h request s =
     (case parse_request HTTPBadRequest h request of
        Inl e \<Rightarrow> (Inl e, s)
      | Inr (Return v) \<Rightarrow> (Inr v, s)
      | Inr (Next parsed) \<Rightarrow>
          (case reconcile h request parsed s of
             (kw, s1) \<Rightarrow>
               (case missing_arg (h_required_kw_args h) kw of
                  Some name \<Rightarrow>
                    (case HTTPBadRequest [PStr (''Missing argument: '' @ name)] [] of
                       Inl e \<Rightarrow> (Inl e, s1)
                     | Inr r \<Rightarrow> (Inr (PResponse r), s1))
                | None \<Rightarrow>
                    (case h_func h kw s1 of
                       (Inl (APIError err dat msg), s2) \<Rightarrow>
                         (Inr (PDict [(''error'', PStr err), (''data'', PStr dat),
                                      (''message'', PStr msg)]), s2)
                     | (r, s2) \<Rightarrow> (r, s2)))))"

section \<open>Response normalizer (app.py, response_factory)\<close>

text \<open>
  What the normalizer uses from outside the repository: the constructors \<open>web.Response\<close>
  and \<open>web.HTTPFound\<close>, the built-in \<open>str\<close>, \<open>json.dumps\<close> with the options of the
  call, and \<open>app['__templating__'].get_template(t).render(**r)\<close>.
\<close>

record env =
  web_Response :: ctor
  web_HTTPFound :: ctor
  py_str :: "pyval \<Rightarrow> string"
  json_dumps :: "pyval \<Rightarrow> exn + string"
  render :: "pyval \<Rightarrow> kwargs \<Rightarrow> exn + string"

text \<open>\<open>resp = web.Response(...); resp.content_type = ct; return resp\<close>\<close>

definition with_content_type :: "exn + response \<Rightarrow> string \<Rightarrow> exn + pyval" where
  "with_content_type r ct =
     (case r of Inl e \<Rightarrow> Inl e | Inr resp \<Rightarrow> Inr (PResponse (resp\<lparr>resp_content_type := ct\<rparr>)))"

definition new_response :: "exn + response \<Rightarrow> exn + pyval" where
  "new_response r = (case r of Inl e \<Rightarrow> Inl e | Inr resp \<Rightarrow> Inr (PResponse resp))"

text \<open>\<open>isinstance(t, int) and t >= 100 and t < 600\<close>\<close>

definition is_status :: "pyval \<Rightarrow> bool" where
  "is_status t = (isinstance_int t \<and> int_value t \<ge> 100 \<and> int_value t < 600)"

text \<open>
  The tests of \<open>response\<close> on the handler's result \<open>r\<close>, in the order of the source:
  StreamResponse, bytes, str, dict, int, tuple. A result that passes none of them falls off
  the end of the function, which returns None.
\<close>

fun normalize :: "env \<Rightarrow> request \<Rightarrow> pyval \<Rightarrow> exn + pyval" where
  "normalize E request (PResponse resp) = Inr (PResponse resp)"
| "normalize E request (PBytes b) =
     with_content_type (web_Response E [] [(''body'', PBytes b)]) ''application/octet-stream''"
| "normalize E request (PStr r) =
     (if startswith r ''redirect:'' then new_response (web_HTTPFound E [PStr (drop 9 r)] [])
      else with_content_type (web_Response E [] [(''body'', PBytes r)]) ''text/html;charset=utf-8'')"
| "normalize E request (PDict r) =
     (let template = (case map_of r ''__template__'' of None \<Rightarrow> PNone | Some t \<Rightarrow> t) in
      if template = PNone then
        (case json_dumps E (PDict r) of
           Inl e \<Rightarrow> Inl e
         | Inr js \<Rightarrow>
             with_content_type (web_Response E [] [(''body'', PBytes js)])
               ''application/json;charset=utf-8'')
      else
        (case render E template (dict_set r ''__user__'' (req_user request)) of
           Inl e \<Rightarrow> Inl e
         | Inr html \<Rightarrow>
             with_content_type (web_Response E [] [(''body'', PBytes html)])
               ''text/html;charset=utf-8''))"
| "normalize E request r =
     (if is_status r then new_response (web_Response E [r] [])
      else
        (case r of
           PTuple [t, m] \<Rightarrow>
             if is_status t
             then new_response (web_Response E [] [(''status'', t), (''text'', PStr (py_str E m))])
             else with_content_type (web_Response E [] [(''body'', PBytes (py_str E r))])
                    ''text/plain;charset=utf-8''
         | _ \<Rightarrow> Inr PNone))"

definition response_factory ::
  "env \<Rightarrow> (request \<Rightarrow> (pyval, 'w state) prog) \<Rightarrow> request \<Rightarrow> (pyval, 'w state) prog" where
  "response_factory E handler request s =
     (case handler request s of
        (Inl e, s') \<Rightarrow> (Inl e, s')
      | (Inr r, s') \<Rightarrow> (normalize E request r, s'))"

text \<open>
  The constructor of aiohttp's \<open>web.Response\<close>, as far as the program uses it. Its
  signature is \<open>Response(*, body=None, status=200, reason=None, text=None, headers=None,
  content_type=None, charset=None)\<close>: every parameter is keyword-only, so a positional
  argument is a TypeError. \<open>body\<close> and \<open>text\<close> exclude each other; a \<open>text\<close> is sent as
  \<open>text/plain\<close>.
\<close>

definition aiohttp_Response :: ctor where
  "aiohttp_Response pos kws =
     (if pos \<noteq> [] then Inl (TypeError ''__init__() takes 1 positional argument'')
      else if kw_get kws ''body'' \<noteq> PNone \<and> kw_get kws ''text'' \<noteq> PNone
      then Inl (ValueError ''body and text are not allowed together'' PNone)
      else
        Inr \<lparr> resp_status = (case kw_get kws ''status'' of PNone \<Rightarrow> 200 | v \<Rightarrow> int_value v),
              resp_body = (case kw_get kws ''body'' of
                             PBytes b \<Rightarrow> b
                           | _ \<Rightarrow> (case kw_get kws ''text'' of PStr t \<Rightarrow> t | _ \<Rightarrow> [])),
              resp_content_type = (case kw_get kws ''text'' of
                                     PStr t \<Rightarrow> ''text/plain''
                                   | _ \<Rightarrow> ''application/octet-stream''),
              resp_headers = [] \<rparr>)"


text \<open>
  The constructor of aiohttp's \<open>web.HTTPBadRequest\<close>. Its signature, that of
  \<open>HTTPException\<close>, is \<open>(*, headers=None, reason=None, body=None, text=None,
  content_type=None)\<close>, keyword-only as well; the response has status 400.
\<close>

definition aiohttp_HTTPBadRequest :: ctor where
  "aiohttp_HTTPBadRequest pos kws =
     (if pos \<noteq> [] then Inl (TypeError ''__init__() takes 1 positional argument'')
      else
        Inr \<lparr> resp_status = 400,
              resp_body = (case kw_get kws ''body'' of
                             PBytes b \<Rightarrow> b
                           | _ \<Rightarrow> (case kw_get kws ''text'' of PStr t \<Rightarrow> t | _ \<Rightarrow> [])),
              resp_content_type = ''text/plain'',
              resp_headers = [] \<rparr>)"

section \<open>Example entities and drivers\<close>

text \<open>
  The class derived from \<open>user_attrs\<close>, and a user on which only \<open>id\<close> and \<open>email\<close> are
  set.
\<close>

definition user_class :: "unit model_class" where
  "user_class = entity_class ''User'' user_attrs ''id''"

definition new_user :: entity where
  "new_user = [''id'' \<mapsto> PStr ''u1'', ''email'' \<mapsto> PStr ''a@example.com'']"


text \<open>
  Drivers over a world with nothing in it, for the examples: one on which every call
  returns and the statement affects \<open>n\<close> rows, one on which the statement raises, and one
  on which the statement raises and the rollback raises as well (a lost connection).
\<close>

definition ok_driver :: "int \<Rightarrow> unit driver" where
  "ok_driver n =
     \<lparr> pool_acquire = (\<lambda>w. (Inr (), w)),
       pool_release = (\<lambda>w. w),
       conn_begin = (\<lambda>w. (Inr (), w)),
       conn_cursor = (\<lambda>w. (Inr (), w)),
       cur_execute = (\<lambda>sql args w. (Inr n, w)),
       cur_fetchmany = (\<lambda>k w. (Inr [], w)),
       cur_fetchall = (\<lambda>w. (Inr [], w)),
       cur_close = (\<lambda>w. (Inr (), w)),
       conn_commit = (\<lambda>w. (Inr (), w)),
       conn_rollback = (\<lambda>w. (Inr (), w)) \<rparr>"

definition failing_driver :: "unit driver" where
  "failing_driver = (ok_driver 0)\<lparr> cur_execute := (\<lambda>sql args w. (Inl (DriverError ''duplicate entry''), w)) \<rparr>"

definition lost_driver :: "unit driver" where
  "lost_driver = failing_driver\<lparr> conn_rollback := (\<lambda>w. (Inl (DriverError ''connection lost''), w)) \<rparr>"

definition init_state :: "unit state" where
  "init_state = \<lparr> world = (), trace = [], warnings = [], store = (\<lambda>a. []) \<rparr>"

text \<open>A state in which the caller of \<open>findAll\<close> holds the list \<open>['a@example.com']\<close> at address 0.\<close>

definition query_state :: "unit state" where
  "query_state = init_state\<lparr>store := (\<lambda>a. [])(0 := [PStr ''a@example.com''])\<rparr>"

section \<open>Example handler and requests\<close>

text \<open>
  The handler \<open>api_create_comment(id, request, *, content)\<close> of handlers.py, with a body
  that returns the keyword arguments it was called with, and two JSON requests to
  \<open>/api/blogs/7/comments\<close>: one with \<open>content\<close> and a key the handler does not declare,
  one without \<open>content\<close>.
\<close>

definition create_comment_fn :: "unit handler_fn" where
  "create_comment_fn =
     \<lparr> fn_name = ''api_create_comment'',
       fn_sig = ''(id, request, *, content)'',
       fn_params = [\<lparr>param_name = ''id'', param_kind = POSITIONAL_OR_KEYWORD, param_has_default = False\<rparr>,
                    \<lparr>param_name = ''request'', param_kind = POSITIONAL_OR_KEYWORD, param_has_default = False\<rparr>,
                    \<lparr>param_name = ''content'', param_kind = KEYWORD_ONLY, param_has_default = False\<rparr>],
       fn_call = (\<lambda>kw. ret (PDict kw)) \<rparr>"

definition create_comment :: "unit RequestHandler" where
  "create_comment =
     \<lparr> h_func = (\<lambda>kw. ret (PDict kw)),
       h_has_request_arg = True,
       h_has_var_kw_arg = False,
       h_has_named_kw_args = True,
       h_named_kw_args = [''content''],
       h_required_kw_args = [''content''] \<rparr>"

definition comment_request :: request where
  "comment_request =
     \<lparr> req_method = ''POST'',
       req_content_type = ''application/json'',
       req_json = Inr (PDict [(''content'', PStr ''hi''), (''extra'', PInt 1)]),
       req_post = Inr [],
       req_query_string = [],
       req_query = [],
       req_match_info = [(''id'', ''7'')],
       req_user = PNone \<rparr>"

definition empty_request :: request where
  "empty_request = comment_request\<lparr> req_json := Inr (PDict [(''extra'', PInt 1)]) \<rparr>"

section \<open>Example base classes and a class with a field named \<open>keys\<close>\<close>

text \<open>
  The attributes with plain names that an instance inherits from \<open>Model\<close> (its methods, in
  the source) and from \<open>dict\<close>: each is a bound method. This is the \<open>base\<close> of the
  examples.
\<close>

definition model_base :: "string \<Rightarrow> pyval option" where
  "model_base key =
     (if key \<in> set [''getValue'', ''getValueOrDefault'', ''findAll'', ''findNumber'', ''find'',
                     ''save'', ''update'', ''remove'',
                     ''clear'', ''copy'', ''fromkeys'', ''get'', ''items'', ''keys'', ''pop'',
                     ''popitem'', ''setdefault'', ''values'']
      then Some (PObject True key) else None)"

text \<open>
  A class body with a field named like a method of \<open>dict\<close> and a field whose column has
  a name of its own, the class derived from it, and an instance on which only \<open>id\<close> is set.
\<close>

definition tag_attrs :: "(string \<times> unit attr) list" where
  "tag_attrs =
     [(''id'', FieldAttr (StringField None True (Value PNone) ''varchar(50)'')),
      (''keys'', FieldAttr (StringField None False (Value PNone) ''varchar(50)'')),
      (''label'', FieldAttr (StringField (Some ''title'') False (Value PNone) ''varchar(50)''))]"

definition tag_class :: "unit model_class" where
  "tag_class = entity_class ''Tag'' tag_attrs ''id''"

definition new_tag :: entity where
  "new_tag = [''id'' \<mapsto> PStr ''t1'']"

section \<open>Properties of schema derivation\<close>

lemma map_of_dict_set: "map_of (dict_set m k v) = (map_of m)(k \<mapsto> v)"
  by (induction m k v rule: dict_set.induct) (auto simp: fun_eq_iff)

lemma pk_names_simps:
  "pk_names [] = []"
  "pk_names ((k, FieldAttr f) # rest) = (if primary_key f then k # pk_names rest else pk_names rest)"
  "pk_names ((k, StrAttr s) # rest) = pk_names rest"
  "pk_names ((k, OtherAttr b s) # rest) = pk_names rest"
  by (simp_all add: pk_names_def)

lemma nonkey_names_simps:
  "nonkey_names [] = []"
  "nonkey_names ((k, FieldAttr f) # rest) = (if primary_key f then nonkey_names rest else k # nonkey_names rest)"
  "nonkey_names ((k, StrAttr s) # rest) = nonkey_names rest"
  "nonkey_names ((k, OtherAttr b s) # rest) = nonkey_names rest"
  by (simp_all add: nonkey_names_def)

lemma scan_attrs_result:
  "\<forall>k \<in> set (map fst attrs). k \<noteq> [] \<Longrightarrow> pk0 \<noteq> Some [] \<Longrightarrow>
   scan_attrs attrs (m, fl, pk0) =
     scan_result (foldl (\<lambda>d (k, f). dict_set d k f) m (declared_fields attrs))
        (fl @ nonkey_names attrs) ((case pk0 of None \<Rightarrow> [] | Some k \<Rightarrow> [k]) @ pk_names attrs)"
proof (induction attrs arbitrary: m fl pk0)
  case Nil
  then show ?case by (simp add: scan_result_def pk_names_simps nonkey_names_simps split: option.splits)
next
  case (Cons a attrs)
  obtain k v where a: "a = (k, v)" by (cases a)
  have k: "k \<noteq> []" using Cons.prems a by simp
  have rest: "\<forall>k \<in> set (map fst attrs). k \<noteq> []" using Cons.prems by simp
  show ?case
  proof (cases v)
    case (FieldAttr f)
    show ?thesis
    proof (cases "primary_key f")
      case True
      show ?thesis
      proof (cases pk0)
        case None
        then show ?thesis using a FieldAttr True k Cons.IH[OF rest, of "Some k"]
          by (simp add: key_truthy_def pk_names_simps nonkey_names_simps)
      next
        case (Some k0)
        then have "k0 \<noteq> []" using Cons.prems by simp
        then show ?thesis using a FieldAttr True Some
          by (simp add: key_truthy_def pk_names_simps scan_result_def)
      qed
    next
      case False
      then show ?thesis using a FieldAttr Cons.IH[OF rest Cons.prems(2)]
        by (simp add: pk_names_simps nonkey_names_simps)
    qed
  next
    case (StrAttr s)
    then show ?thesis using a Cons.IH[OF rest Cons.prems(2)]
      by (simp add: pk_names_simps nonkey_names_simps)
  next
    case (OtherAttr b s)
    then show ?thesis using a Cons.IH[OF rest Cons.prems(2)]
      by (simp add: pk_names_simps nonkey_names_simps)
  qed
qed

lemma keys_dict_set: "fst ` set (dict_set m k v) = insert k (fst ` set m)"
  by (induction m k v rule: dict_set.induct) auto

lemma keys_foldl_dict_set:
  "fst ` set (foldl (\<lambda>d (k, f). dict_set d k f) m xs) = fst ` set m \<union> fst ` set xs"
  by (induction xs arbitrary: m) (simp_all add: keys_dict_set case_prod_beta)

lemma nonkey_names_declared: "set (nonkey_names attrs) \<subseteq> fst ` set (declared_fields attrs)"
  by (induction attrs rule: declared_fields.induct) (auto simp: nonkey_names_simps)

lemma pk_names_declared: "set (pk_names attrs) \<subseteq> fst ` set (declared_fields attrs)"
  by (induction attrs rule: declared_fields.induct) (auto simp: pk_names_simps)

lemma update_assignments_ok:
  "set fs \<subseteq> fst ` set m \<Longrightarrow>
   update_assignments m fs = Inr (map (\<lambda>f. ''`'' @ column_name (the (map_of m f)) f @ ''`=?'') fs)"
proof (induction fs)
  case Nil then show ?case by simp
next
  case (Cons f fs)
  then have "f \<in> fst ` set m" by simp
  then obtain fl where "map_of m f = Some fl"
    by (metis domD dom_map_of_conv_image_fst)
  then show ?case using Cons by simp
qed

lemma create_args_string_replicate: "create_args_string n = join '', '' (replicate n ''?'')"
proof -
  have "foldl (\<lambda>L n. L @ [''?'']) acc [0..<n] = acc @ replicate n ''?''" for acc :: "string list"
    by (induction n arbitrary: acc) (simp_all add: replicate_append_same)
  then show ?thesis by (simp add: create_args_string_def)
qed


lemma scan_attrs_initial:
  assumes "\<forall>k \<in> set (map fst attrs). k \<noteq> []"
  shows "scan_attrs attrs ([], [], None) =
         scan_result (all_mappings attrs) (nonkey_names attrs) (pk_names attrs)"
  using scan_attrs_result[OF assms, of None "[]" "[]"] by (simp add: all_mappings_def)

lemma pk_names_nonempty:
  assumes "\<forall>k \<in> set (map fst attrs). k \<noteq> []" and "pk \<in> set (pk_names attrs)"
  shows "pk \<noteq> []"
  using assms by (auto simp: pk_names_def)

lemma nonkey_in_mappings: "set (nonkey_names attrs) \<subseteq> fst ` set (all_mappings attrs)"
  using nonkey_names_declared[of attrs] by (simp add: all_mappings_def keys_foldl_dict_set)

lemma pk_in_mappings: "set (pk_names attrs) \<subseteq> fst ` set (all_mappings attrs)"
  using pk_names_declared[of attrs] by (simp add: all_mappings_def keys_foldl_dict_set)

lemma ModelMetaclass_new_no_key:
  assumes "name \<noteq> ''Model''" and "\<forall>k \<in> set (map fst attrs). k \<noteq> []" and "pk_names attrs = []"
  shows "ModelMetaclass_new name attrs = Inl (RuntimeError ''Priamry key not found.'')"
  using assms(1,3)
  by (simp add: ModelMetaclass_new_def scan_attrs_initial[OF assms(2)] scan_result_def key_truthy_def)

lemma ModelMetaclass_new_duplicate:
  assumes "name \<noteq> ''Model''" and "\<forall>k \<in> set (map fst attrs). k \<noteq> []"
    and "2 \<le> length (pk_names attrs)"
  shows "ModelMetaclass_new name attrs =
         Inl (RuntimeError (''Duplicate primary key for field: '' @ pk_names attrs ! 1))"
  using assms(1,3)
  by (simp add: ModelMetaclass_new_def scan_attrs_initial[OF assms(2)] scan_result_def)

lemma ModelMetaclass_new_entity:
  assumes "name \<noteq> ''Model''" and "\<forall>k \<in> set (map fst attrs). k \<noteq> []"
    and "pk_names attrs = [pk]"
  shows "ModelMetaclass_new name attrs = Inr (Entity (entity_class name attrs pk))"
proof -
  have "pk \<noteq> []" using pk_names_nonempty[OF assms(2), of pk] assms(3) by simp
  then show ?thesis using assms(1,3)
    by (simp add: ModelMetaclass_new_def scan_attrs_initial[OF assms(2)] scan_result_def
        key_truthy_def update_assignments_ok[OF nonkey_in_mappings] Let_def entity_class_def)
qed

lemma pk_names_cases:
  obtains (zero) "pk_names attrs = []" | (one) pk where "pk_names attrs = [pk]"
    | (many) "2 \<le> length (pk_names attrs)"
  by (cases "pk_names attrs" rule: remdups_adj.cases) auto

lemma entity_derived:
  assumes "ModelMetaclass_new name attrs = Inr (Entity cls)"
    and "\<forall>k \<in> set (map fst attrs). k \<noteq> []"
  shows "\<exists>pk. pk_names attrs = [pk] \<and> cls = entity_class name attrs pk"
proof -
  have n: "name \<noteq> ''Model''" using assms(1) by (auto simp: ModelMetaclass_new_def)
  show ?thesis
  proof (cases attrs rule: pk_names_cases)
    case zero
    then show ?thesis using ModelMetaclass_new_no_key[OF n assms(2)] assms(1) by simp
  next
    case (one pk)
    then show ?thesis using ModelMetaclass_new_entity[OF n assms(2) one] assms(1) by simp
  next
    case many
    then show ?thesis using ModelMetaclass_new_duplicate[OF n assms(2)] assms(1) by simp
  qed
qed

lemma nonkey_names_keys: "set (nonkey_names attrs) \<subseteq> fst ` set attrs"
  by (auto simp: nonkey_names_def)

lemma pk_names_keys: "set (pk_names attrs) \<subseteq> fst ` set attrs"
  by (auto simp: pk_names_def)

lemma distinct_columns:
  "distinct (map fst attrs) \<Longrightarrow> distinct (nonkey_names attrs @ pk_names attrs)"
proof (induction attrs)
  case Nil then show ?case by (simp add: pk_names_simps nonkey_names_simps)
next
  case (Cons a attrs)
  obtain k v where a: "a = (k, v)" by (cases a)
  have "k \<notin> set (nonkey_names attrs)" "k \<notin> set (pk_names attrs)"
    using Cons.prems a nonkey_names_keys[of attrs] pk_names_keys[of attrs] by auto
  then show ?case using Cons a
    by (cases v) (auto simp: pk_names_simps nonkey_names_simps)
qed

text \<open>
  C1. For a class other than the base class \<open>Model\<close>, whose attribute names are
  identifiers (so none is empty), schema derivation succeeds if and only if exactly one
  declared field has the primary-key flag. With no such field it raises
  \<open>RuntimeError('Priamry key not found.')\<close>, with more than one it raises
  \<open>RuntimeError('Duplicate primary key for field: ...')\<close> naming the second of them, and
  the result is a function of the declaration. With exactly one it produces the table
  name, the primary key, the non-key fields in declaration order and the select, insert,
  update and delete templates.
\<close>

theorem schema_derivation:
  assumes "name \<noteq> ''Model''" and "\<forall>k \<in> set (map fst attrs). k \<noteq> []"
  shows "((\<exists>cls. ModelMetaclass_new name attrs = Inr (Entity cls)) \<longleftrightarrow> length (pk_names attrs) = 1)
       \<and> (pk_names attrs = [] \<longrightarrow>
            ModelMetaclass_new name attrs = Inl (RuntimeError ''Priamry key not found.''))
       \<and> (2 \<le> length (pk_names attrs) \<longrightarrow>
            ModelMetaclass_new name attrs =
              Inl (RuntimeError (''Duplicate primary key for field: '' @ pk_names attrs ! 1)))
       \<and> (\<forall>pk. pk_names attrs = [pk] \<longrightarrow>
            (\<exists>cls. ModelMetaclass_new name attrs = Inr (Entity cls)
               \<and> cls_table cls = table_name name attrs
               \<and> cls_primary_key cls = pk
               \<and> cls_fields cls = nonkey_names attrs
               \<and> cls_select cls = ''select `'' @ pk @ ''`,'' @ join '','' (map escaped (nonkey_names attrs)) @
                                  '' from `'' @ table_name name attrs @ ''`''
               \<and> cls_insert cls = ''insert into `'' @ table_name name attrs @ ''` ('' @
                                  join '', '' (map escaped (nonkey_names attrs)) @ '', `'' @ pk @
                                  ''`) values ('' @ create_args_string (length (nonkey_names attrs) + 1) @ '')''
               \<and> cls_update cls = ''update `'' @ table_name name attrs @ ''` set '' @
                                  join '', '' (map (\<lambda>f. ''`'' @ column_name (the (map_of (all_mappings attrs) f)) f @ ''`=?'')
                                                  (nonkey_names attrs)) @
                                  '' where `'' @ pk @ ''`=?''
               \<and> cls_delete cls = ''delete from `'' @ table_name name attrs @ ''` where `'' @ pk @ ''`=?''))"
proof -
  consider (zero) "pk_names attrs = []" | (one) pk where "pk_names attrs = [pk]"
    | (many) "2 \<le> length (pk_names attrs)"
    by (cases "pk_names attrs" rule: remdups_adj.cases) auto
  then show ?thesis
  proof cases
    case zero
    then show ?thesis using ModelMetaclass_new_no_key[OF assms zero] by simp
  next
    case one
    then show ?thesis using ModelMetaclass_new_entity[OF assms one] by (simp add: entity_class_def)
  next
    case many
    then have "pk_names attrs \<noteq> []" "length (pk_names attrs) \<noteq> 1" "\<And>pk. pk_names attrs \<noteq> [pk]"
      by auto
    then show ?thesis using ModelMetaclass_new_duplicate[OF assms many] many by simp
  qed
qed

theorem schema_derivation_witness:
  "''User'' \<noteq> ''Model'' \<and> [] \<notin> set (map fst user_attrs) \<and>
   pk_names user_attrs = [''id''] \<and>
   (\<exists>cls. ModelMetaclass_new ''User'' user_attrs = Inr (Entity cls) \<and>
          cls_table cls = ''users'' \<and> cls_primary_key cls = ''id'' \<and>
          cls_fields cls = [''email'', ''admin'', ''image''] \<and>
          cls_insert cls = ''insert into `users` (`email`, `admin`, `image`, `id`) values (?, ?, ?, ?)'') \<and>
   pk_names keyless_attrs = [] \<and>
   ModelMetaclass_new ''Draft'' keyless_attrs = Inl (RuntimeError ''Priamry key not found.'')"
proof -
  have n1: "''User'' \<noteq> ''Model''" and n2: "''Draft'' \<noteq> ''Model''" by simp_all
  have k1: "\<forall>k \<in> set (map fst user_attrs). k \<noteq> []" by (simp add: user_attrs_def)
  have k2: "\<forall>k \<in> set (map fst keyless_attrs). k \<noteq> []" by (simp add: keyless_attrs_def)
  have p1: "pk_names user_attrs = [''id'']"
    by (simp add: user_attrs_def pk_names_simps StringField_def BooleanField_def)
  have p2: "pk_names keyless_attrs = []"
    by (simp add: keyless_attrs_def pk_names_simps StringField_def)
  have f1: "nonkey_names user_attrs = [''email'', ''admin'', ''image'']"
    by (simp add: user_attrs_def nonkey_names_simps StringField_def BooleanField_def)
  have t1: "table_name ''User'' user_attrs = ''users''"
    by (simp add: user_attrs_def table_name_def)
  have a1: "create_args_string (Suc (Suc (Suc (Suc 0)))) = ''?, ?, ?, ?''"
    by (simp add: create_args_string_replicate)
  have ok: "\<exists>cls. ModelMetaclass_new ''User'' user_attrs = Inr (Entity cls) \<and>
          cls_table cls = ''users'' \<and> cls_primary_key cls = ''id'' \<and>
          cls_fields cls = [''email'', ''admin'', ''image''] \<and>
          cls_insert cls = ''insert into `users` (`email`, `admin`, `image`, `id`) values (?, ?, ?, ?)''"
    using schema_derivation[OF n1 k1, THEN conjunct2, THEN conjunct2, THEN conjunct2,
      rule_format, OF p1]
    by (auto simp add: f1 t1 a1 escaped_def)
  have bad: "ModelMetaclass_new ''Draft'' keyless_attrs = Inl (RuntimeError ''Priamry key not found.'')"
    using schema_derivation[OF n2 k2, THEN conjunct2, THEN conjunct1] p2 by simp
  have e1: "[] \<notin> set (map fst user_attrs)" by (simp add: user_attrs_def)
  show ?thesis using n1 e1 p1 ok p2 bad by (intro conjI)
qed

section \<open>Properties of execute\<close>

lemma call_trace: "call ev op s = (r, s') \<Longrightarrow> trace s' = trace s @ [ev]"
  by (auto simp: call_def split: prod.splits)

lemma call_frame: "call ev op s = (r, s') \<Longrightarrow> warnings s' = warnings s \<and> store s' = store s"
  by (auto simp: call_def split: prod.splits)

lemma execute_try_commit_trace:
  assumes "execute_try drv sql args False s1 = (Inr n, s2)"
  shows "trace s2 = trace s1 @ [Cursor, Execute (replace_qmark sql) args, Close, Commit]"
  using assms
  by (auto simp: execute_try_def bnd_def ret_def split: prod.splits sum.splits dest!: call_trace)

lemma execute_try_statements:
  assumes "execute_try drv sql args ac s1 = (r, s2)"
  shows "\<exists>evs. trace s2 = trace s1 @ evs \<and>
           set (filter is_statement evs) \<subseteq> {Execute (replace_qmark sql) args} \<and>
           (\<forall>n. r = Inr n \<longrightarrow> filter is_statement evs = [Execute (replace_qmark sql) args])"
  using assms
  by (auto simp: execute_try_def bnd_def ret_def split: prod.splits sum.splits if_splits
      dest!: call_trace)

lemma execute_try_frame:
  assumes "execute_try drv sql args ac s1 = (r, s2)"
  shows "warnings s2 = warnings s1 \<and> store s2 = store s1"
  using assms
  by (auto simp: execute_try_def bnd_def ret_def split: prod.splits sum.splits if_splits
      dest!: call_frame)

lemma execute_statements:
  assumes "execute drv sql args ac s = (r, s')"
  shows "\<exists>evs. trace s' = trace s @ evs \<and>
           set (filter is_statement evs) \<subseteq> {Execute (replace_qmark sql) args} \<and>
           (\<forall>n. r = Inr n \<longrightarrow> filter is_statement evs = [Execute (replace_qmark sql) args])"
proof (cases "call Acquire (pool_acquire drv) s")
  case (Pair r0 s0)
  note acq = Pair
  have t0: "trace s0 = trace s @ [Acquire]" using call_trace[OF acq] .
  show ?thesis
  proof (cases r0)
    case (Inl e)
    then show ?thesis using assms acq t0 by (auto simp: execute_def)
  next
    case (Inr u)
    obtain rb s1 where beg: "(if \<not> ac then call Begin (conn_begin drv) s0 else (Inr (), s0)) = (rb, s1)"
      by (cases "(if \<not> ac then call Begin (conn_begin drv) s0 else (Inr (), s0))")
    have t1: "\<exists>evs. trace s1 = trace s0 @ evs \<and> filter is_statement evs = []"
      using beg by (auto split: if_splits dest!: call_trace)
    show ?thesis
    proof (cases rb)
      case (Inl e)
      then show ?thesis using assms acq Inr beg t0 t1
        by (auto simp: execute_def release_def filter_empty_conv)
    next
      case (Inr u')
      obtain rt s2 where tr: "execute_try drv sql args ac s1 = (rt, s2)"
        by (cases "execute_try drv sql args ac s1")
      from execute_try_statements[OF tr] obtain evs where
        evs: "trace s2 = trace s1 @ evs"
          "set (filter is_statement evs) \<subseteq> {Execute (replace_qmark sql) args}"
          "\<forall>n. rt = Inr n \<longrightarrow> filter is_statement evs = [Execute (replace_qmark sql) args]"
        by blast
      show ?thesis
      proof (cases rt)
        case (Inr n)
        then show ?thesis using assms acq \<open>r0 = Inr u\<close> beg \<open>rb = Inr u'\<close> tr t0 t1 evs
          by (auto simp: execute_def release_def filter_empty_conv)
      next
        case (Inl e)
        then show ?thesis using assms acq \<open>r0 = Inr u\<close> beg \<open>rb = Inr u'\<close> tr t0 t1 evs
          by (auto simp: execute_def release_def filter_empty_conv split: if_splits prod.splits sum.splits dest!: call_trace)
      qed
    qed
  qed
qed

lemma statements_append: "trace s' = trace s @ evs \<Longrightarrow> statements s s' = filter is_statement evs"
  by (simp add: statements_def)


lemma execute_frame:
  assumes "execute drv sql args ac s = (r, s')"
  shows "warnings s' = warnings s \<and> store s' = store s"
  using assms
  by (auto simp: execute_def release_def split: prod.splits sum.splits if_splits
      dest!: call_frame execute_try_frame)

text \<open>
  C4, as the code has it. A call of \<open>execute\<close> with autocommit false, on a connection
  that was acquired and on which \<open>begin\<close> returned, runs the statement between \<open>begin\<close>
  and \<open>commit\<close> and returns the affected-row count when the try block (cursor, statement,
  close, commit) returns. When the try block raises \<open>e\<close>, \<open>rollback\<close> is called next and
  before the connection is released: if the rollback returns, \<open>e\<close> itself is raised to the
  caller; if the rollback raises \<open>e'\<close>, it is \<open>e'\<close> that reaches the caller.
\<close>

theorem execute_transaction:
  assumes acq: "call Acquire (pool_acquire drv) s = (Inr (), s0)"
      and beg: "call Begin (conn_begin drv) s0 = (Inr (), s1)"
  shows "(\<forall>n s2. execute_try drv sql args False s1 = (Inr n, s2) \<longrightarrow>
            execute drv sql args False s = (Inr n, release drv s2) \<and>
            trace (release drv s2) =
              trace s @ [Acquire, Begin, Cursor, Execute (replace_qmark sql) args, Close, Commit, Release])
       \<and> (\<forall>e s2 s3. execute_try drv sql args False s1 = (Inl e, s2) \<and>
                    call Rollback (conn_rollback drv) s2 = (Inr (), s3) \<longrightarrow>
            execute drv sql args False s = (Inl e, release drv s3) \<and>
            trace (release drv s3) = trace s2 @ [Rollback, Release])
       \<and> (\<forall>e s2 e' s3. execute_try drv sql args False s1 = (Inl e, s2) \<and>
                    call Rollback (conn_rollback drv) s2 = (Inl e', s3) \<longrightarrow>
            execute drv sql args False s = (Inl e', release drv s3) \<and>
            trace (release drv s3) = trace s2 @ [Rollback, Release])"
proof (intro conjI allI impI)
  fix n s2 assume t: "execute_try drv sql args False s1 = (Inr n, s2)"
  show "execute drv sql args False s = (Inr n, release drv s2)"
    using acq beg t by (simp add: execute_def)
  show "trace (release drv s2) =
        trace s @ [Acquire, Begin, Cursor, Execute (replace_qmark sql) args, Close, Commit, Release]"
    using call_trace[OF acq] call_trace[OF beg] execute_try_commit_trace[OF t]
    by (simp add: release_def)
next
  fix e s2 s3
  assume t: "execute_try drv sql args False s1 = (Inl e, s2) \<and>
             call Rollback (conn_rollback drv) s2 = (Inr (), s3)"
  show "execute drv sql args False s = (Inl e, release drv s3)"
    using acq beg t by (simp add: execute_def)
  show "trace (release drv s3) = trace s2 @ [Rollback, Release]"
    using t call_trace[of Rollback "conn_rollback drv" s2 "Inr ()" s3] by (simp add: release_def)
next
  fix e s2 e' s3
  assume t: "execute_try drv sql args False s1 = (Inl e, s2) \<and>
             call Rollback (conn_rollback drv) s2 = (Inl e', s3)"
  show "execute drv sql args False s = (Inl e', release drv s3)"
    using acq beg t by (simp add: execute_def)
  show "trace (release drv s3) = trace s2 @ [Rollback, Release]"
    using t call_trace[of Rollback "conn_rollback drv" s2 "Inl e'" s3] by (simp add: release_def)
qed

theorem execute_transaction_witness:
  "execute (ok_driver 1) ''delete from `users` where `id`=?'' [PStr ''1''] False init_state =
     (Inr 1, init_state\<lparr>trace := [Acquire, Begin, Cursor,
                Execute ''delete from `users` where `id`=%s'' [PStr ''1''], Close, Commit, Release]\<rparr>) \<and>
   execute failing_driver ''delete from `users` where `id`=?'' [PStr ''1''] False init_state =
     (Inl (DriverError ''duplicate entry''), init_state\<lparr>trace := [Acquire, Begin, Cursor,
                Execute ''delete from `users` where `id`=%s'' [PStr ''1''], Rollback, Release]\<rparr>) \<and>
   execute lost_driver ''delete from `users` where `id`=?'' [PStr ''1''] False init_state =
     (Inl (DriverError ''connection lost''), init_state\<lparr>trace := [Acquire, Begin, Cursor,
                Execute ''delete from `users` where `id`=%s'' [PStr ''1''], Rollback, Release]\<rparr>)"
proof -
  let ?q = "''delete from `users` where `id`=?''"
  let ?q' = "''delete from `users` where `id`=%s''"
  let ?s0 = "init_state\<lparr>trace := [Acquire]\<rparr>"
  let ?s1 = "init_state\<lparr>trace := [Acquire, Begin]\<rparr>"
  let ?s2 = "init_state\<lparr>trace := [Acquire, Begin, Cursor, Execute ?q' [PStr ''1'']]\<rparr>"
  let ?s3 = "init_state\<lparr>trace := [Acquire, Begin, Cursor, Execute ?q' [PStr ''1''], Rollback]\<rparr>"
  have a1: "call Acquire (pool_acquire (ok_driver 1)) init_state = (Inr (), ?s0)"
    and a2: "call Acquire (pool_acquire failing_driver) init_state = (Inr (), ?s0)"
    and a3: "call Acquire (pool_acquire lost_driver) init_state = (Inr (), ?s0)"
    by (simp_all add: call_def ok_driver_def failing_driver_def lost_driver_def init_state_def)
  have b1: "call Begin (conn_begin (ok_driver 1)) ?s0 = (Inr (), ?s1)"
    and b2: "call Begin (conn_begin failing_driver) ?s0 = (Inr (), ?s1)"
    and b3: "call Begin (conn_begin lost_driver) ?s0 = (Inr (), ?s1)"
    by (simp_all add: call_def ok_driver_def failing_driver_def lost_driver_def init_state_def)
  have t1: "execute_try (ok_driver 1) ?q [PStr ''1''] False ?s1 =
              (Inr 1, init_state\<lparr>trace := [Acquire, Begin, Cursor, Execute ?q' [PStr ''1''], Close, Commit]\<rparr>)"
    by (simp add: execute_try_def bnd_def ret_def call_def ok_driver_def init_state_def)
  have t2: "execute_try failing_driver ?q [PStr ''1''] False ?s1 = (Inl (DriverError ''duplicate entry''), ?s2)"
    and t3: "execute_try lost_driver ?q [PStr ''1''] False ?s1 = (Inl (DriverError ''duplicate entry''), ?s2)"
    by (simp_all add: execute_try_def bnd_def ret_def call_def ok_driver_def failing_driver_def
        lost_driver_def init_state_def)
  have r2: "call Rollback (conn_rollback failing_driver) ?s2 = (Inr (), ?s3)"
    and r3: "call Rollback (conn_rollback lost_driver) ?s2 = (Inl (DriverError ''connection lost''), ?s3)"
    by (simp_all add: call_def ok_driver_def failing_driver_def lost_driver_def init_state_def)
  have e1: "execute (ok_driver 1) ?q [PStr ''1''] False init_state =
              (Inr 1, release (ok_driver 1)
                 (init_state\<lparr>trace := [Acquire, Begin, Cursor, Execute ?q' [PStr ''1''], Close, Commit]\<rparr>))"
    using execute_transaction[OF a1 b1, of ?q "[PStr ''1'']"] t1 by blast
  have e2: "execute failing_driver ?q [PStr ''1''] False init_state =
              (Inl (DriverError ''duplicate entry''), release failing_driver ?s3)"
    using execute_transaction[OF a2 b2, of ?q "[PStr ''1'']"] t2 r2 by blast
  have e3: "execute lost_driver ?q [PStr ''1''] False init_state =
              (Inl (DriverError ''connection lost''), release lost_driver ?s3)"
    using execute_transaction[OF a3 b3, of ?q "[PStr ''1'']"] t3 r3 by blast
  show ?thesis
    unfolding e1 e2 e3
    by (simp add: release_def ok_driver_def failing_driver_def lost_driver_def init_state_def)
qed

text \<open>
  C4 as stated fails when the rollback raises: on a driver whose statement raises
  \<open>duplicate entry\<close> and whose rollback raises \<open>connection lost\<close>, the caller receives the
  error of the rollback, and the error of the statement is lost.
\<close>

theorem execute_rollback_raises_counterexample:
  "fst (cur_execute lost_driver (replace_qmark ''delete from `users` where `id`=?'') [PStr ''1''] ()) =
     Inl (DriverError ''duplicate entry'') \<and>
   fst (execute lost_driver ''delete from `users` where `id`=?'' [PStr ''1''] False init_state) =
     Inl (DriverError ''connection lost'')"
  by (simp add: execute_def execute_try_def bnd_def ret_def call_def lost_driver_def failing_driver_def
      ok_driver_def init_state_def release_def)

section \<open>Properties of save, update and remove\<close>

lemma map_prog_append:
  "map_prog f (xs @ ys) s =
     (case map_prog f xs s of
        (Inl e, s') \<Rightarrow> (Inl e, s')
      | (Inr a, s') \<Rightarrow>
          (case map_prog f ys s' of
             (Inl e, s'') \<Rightarrow> (Inl e, s'')
           | (Inr b, s'') \<Rightarrow> (Inr (a @ b), s'')))"
  by (induction xs arbitrary: s) (auto split: prod.splits sum.splits)

lemma save_args_map_prog:
  "save_args base cls st = map_prog (getValueOrDefault base cls) (cls_fields cls @ [cls_primary_key cls]) st"
  by (auto simp: save_args_def map_prog_append bnd_def ret_def split: prod.splits sum.splits)




lemma getValue_stored:
  "class_attribute base cls key = None \<Longrightarrow>
   getValue base cls self key = (case self key of None \<Rightarrow> PNone | Some v \<Rightarrow> v)"
  by (simp add: getValue_def)

lemma getValue_class:
  "class_attribute base cls key = Some v \<Longrightarrow> getValue base cls self key = v"
  by (simp add: getValue_def)




lemma gvd_frame:
  "getValueOrDefault base cls key (self, s) = (r, (self', s')) \<Longrightarrow>
   trace s' = trace s \<and> warnings s' = warnings s \<and> store s' = store s \<and>
   (\<forall>k. k \<noteq> key \<longrightarrow> self' k = self k)"
  by (auto simp: getValueOrDefault_def Let_def split: option.splits dflt.splits prod.splits if_splits)


lemma map_prog_gvd_frame:
  "map_prog (getValueOrDefault base cls) ks (self, s) = (r, (self', s')) \<Longrightarrow>
   trace s' = trace s \<and> warnings s' = warnings s \<and> store s' = store s \<and>
   (\<forall>k. k \<notin> set ks \<longrightarrow> self' k = self k)"
proof (induction ks arbitrary: self s r self' s')
  case Nil then show ?case by simp
next
  case (Cons k ks)
  obtain r1 self1 s1 where a: "getValueOrDefault base cls k (self, s) = (r1, (self1, s1))"
    by (metis surj_pair)
  note f1 = gvd_frame[OF a]
  show ?case
  proof (cases r1)
    case (Inl e)
    then show ?thesis using Cons.prems a f1 by auto
  next
    case (Inr v)
    obtain r2 self2 s2 where b: "map_prog (getValueOrDefault base cls) ks (self1, s1) = (r2, (self2, s2))"
      by (metis surj_pair)
    from Cons.IH[OF b] f1 Cons.prems a Inr b show ?thesis
      by (auto split: sum.splits)
  qed
qed

lemma derived_columns:
  assumes derived: "ModelMetaclass_new name attrs = Inr (Entity cls)"
      and names: "\<forall>k \<in> set (map fst attrs). k \<noteq> []"
  shows "set (cls_fields cls @ [cls_primary_key cls]) \<subseteq> fst ` set (cls_mappings cls)"
    and "distinct (map fst attrs) \<Longrightarrow> distinct (cls_fields cls @ [cls_primary_key cls])"
proof -
  from entity_derived[OF derived names] obtain pk where
    pk: "pk_names attrs = [pk]" and cls: "cls = entity_class name attrs pk" by blast
  show "set (cls_fields cls @ [cls_primary_key cls]) \<subseteq> fst ` set (cls_mappings cls)"
    using nonkey_in_mappings[of attrs] pk_in_mappings[of attrs] pk cls
    by (simp add: entity_class_def)
  show "distinct (cls_fields cls @ [cls_primary_key cls])" if "distinct (map fst attrs)"
    using distinct_columns[OF that] pk cls by (simp add: entity_class_def)
qed




lemma save_args_frame:
  assumes "save_args base cls (self, s) = (r, (self', s'))"
  shows "trace s' = trace s \<and> warnings s' = warnings s \<and> store s' = store s"
  using map_prog_gvd_frame[of base cls "cls_fields cls @ [cls_primary_key cls]" self s r self' s'] assms
  by (simp add: save_args_map_prog)



lemma user_class_simps:
  "cls_fields user_class = [''email'', ''admin'', ''image'']"
  "cls_primary_key user_class = ''id''"
  "cls_insert user_class = ''insert into `users` (`email`, `admin`, `image`, `id`) values (?, ?, ?, ?)''"
  "cls_update user_class = ''update `users` set `email`=?, `admin`=?, `image`=? where `id`=?''"
  "cls_delete user_class = ''delete from `users` where `id`=?''"
  "cls_mappings user_class =
     [(''id'', StringField None True (Value PNone) ''varchar(50)''),
      (''email'', StringField None False (Value PNone) ''varchar(50)''),
      (''admin'', BooleanField None (Value (PBool False))),
      (''image'', StringField None False (Value (PStr ''about:blank'')) ''varchar(500)'')]"
  "cls_attrs user_class = [(''__table__'', StrAttr ''users'')]"
  by (simp_all add: user_class_def entity_class_def user_attrs_def nonkey_names_simps
      StringField_def BooleanField_def table_name_def escaped_def create_args_string_replicate
      all_mappings_def column_name_def dict_pop_def)

lemma user_class_no_collision:
  "class_attribute model_base user_class ''id'' = None"
  "class_attribute model_base user_class ''email'' = None"
  "class_attribute model_base user_class ''admin'' = None"
  "class_attribute model_base user_class ''image'' = None"
  by (simp_all add: class_attribute_def user_class_simps model_base_def)

lemma new_user_values:
  "getValue model_base user_class self ''id'' = (case self ''id'' of None \<Rightarrow> PNone | Some v \<Rightarrow> v)"
  "getValue model_base user_class self ''email'' = (case self ''email'' of None \<Rightarrow> PNone | Some v \<Rightarrow> v)"
  "getValue model_base user_class self ''admin'' = (case self ''admin'' of None \<Rightarrow> PNone | Some v \<Rightarrow> v)"
  "getValue model_base user_class self ''image'' = (case self ''image'' of None \<Rightarrow> PNone | Some v \<Rightarrow> v)"
  by (simp_all add: getValue_stored user_class_no_collision)

lemma new_user_save_args:
  "save_args model_base user_class (new_user, init_state) =
     (Inr [PStr ''a@example.com'', PBool False, PStr ''about:blank'', PStr ''u1''],
      (new_user(''admin'' \<mapsto> PBool False, ''image'' \<mapsto> PStr ''about:blank''), init_state))"
  by (simp add: save_args_def bnd_def ret_def user_class_simps getValueOrDefault_def new_user_values
      new_user_def StringField_def BooleanField_def Let_def)

lemma new_user_save_returns:
  "fst (save (ok_driver 1) model_base user_class (new_user, init_state)) = Inr ()"
  by (simp add: save_def new_user_save_args execute_def execute_try_def bnd_def ret_def call_def
      ok_driver_def release_def)

lemma tag_class_derived: "ModelMetaclass_new ''Tag'' tag_attrs = Inr (Entity tag_class)"
proof -
  have "pk_names tag_attrs = [''id'']"
    by (simp add: tag_attrs_def pk_names_simps StringField_def)
  moreover have "\<forall>k \<in> set (map fst tag_attrs). k \<noteq> []" by (simp add: tag_attrs_def)
  ultimately show ?thesis
    using ModelMetaclass_new_entity[of "''Tag''" tag_attrs "''id''"] by (simp add: tag_class_def)
qed

lemma tag_class_simps:
  "cls_fields tag_class = [''keys'', ''label'']"
  "cls_primary_key tag_class = ''id''"
  "cls_update tag_class = ''update `Tag` set `keys`=?, `title`=? where `id`=?''"
  "cls_insert tag_class = ''insert into `Tag` (`keys`, `label`, `id`) values (?, ?, ?)''"
  "cls_table tag_class = ''Tag''"
  "cls_attrs tag_class = []"
  "cls_mappings tag_class =
     [(''id'', StringField None True (Value PNone) ''varchar(50)''),
      (''keys'', StringField None False (Value PNone) ''varchar(50)''),
      (''label'', StringField (Some ''title'') False (Value PNone) ''varchar(50)'')]"
  by (simp_all add: tag_class_def entity_class_def tag_attrs_def nonkey_names_simps
      StringField_def table_name_def escaped_def create_args_string_replicate
      all_mappings_def column_name_def dict_pop_def)

lemma tag_class_attributes:
  "class_attribute model_base tag_class ''keys'' = Some (PObject True ''keys'')"
  "class_attribute model_base tag_class ''label'' = None"
  "class_attribute model_base tag_class ''id'' = None"
  by (simp_all add: class_attribute_def tag_class_simps model_base_def)



lemma update_statements:
  assumes up: "update drv base cls (self, s) = (r, (self', s'))"
  shows "self' = self \<and>
         set (statements s s') \<subseteq> {Execute (replace_qmark (cls_update cls)) (update_args base cls self)} \<and>
         (r = Inr () \<longrightarrow> statements s s' = [Execute (replace_qmark (cls_update cls)) (update_args base cls self)])"
proof -
  obtain re s2 where ex: "execute drv (cls_update cls) (update_args base cls self) True s = (re, s2)"
    by (cases "execute drv (cls_update cls) (update_args base cls self) True s")
  from execute_statements[OF ex] obtain evs where
    evs: "trace s2 = trace s @ evs"
      "set (filter is_statement evs) \<subseteq> {Execute (replace_qmark (cls_update cls)) (update_args base cls self)}"
      "\<forall>n. re = Inr n \<longrightarrow> filter is_statement evs = [Execute (replace_qmark (cls_update cls)) (update_args base cls self)]"
    by blast
  have st: "statements s s2 = filter is_statement evs"
    using evs(1) by (simp add: statements_append)
  show ?thesis
  proof (cases re)
    case (Inl e)
    then show ?thesis using up ex evs st by (auto simp: update_def)
  next
    case (Inr rows)
    then have "trace s' = trace s2" "r = Inr ()" "self' = self"
      using up ex by (auto simp: update_def warn_def split: if_splits)
    then have "statements s s' = statements s s2" by (simp add: statements_def)
    then show ?thesis using evs st Inr \<open>self' = self\<close> by auto
  qed
qed

lemma update_args_nth:
  "i < length (cls_fields cls) \<Longrightarrow>
   update_args base cls self ! i = getValue base cls self (cls_fields cls ! i)"
  by (simp add: update_args_def nth_append)

lemma new_user_update_args:
  "update_args model_base user_class new_user = [PStr ''a@example.com'', PNone, PNone, PStr ''u1'']"
  by (simp add: update_args_def user_class_simps new_user_values new_user_def)

lemma new_user_update:
  "update (ok_driver n) model_base user_class (new_user, init_state) =
     (Inr (), (new_user,
        (if n \<noteq> 1 then warn ''failed to update by primary key: affected rows: %s'' (PInt n) else id)
        (init_state\<lparr>trace := [Acquire, Cursor,
           Execute ''update `users` set `email`=%s, `admin`=%s, `image`=%s where `id`=%s''
             [PStr ''a@example.com'', PNone, PNone, PStr ''u1''], Close, Release]\<rparr>)))"
  by (simp add: update_def execute_def execute_try_def bnd_def ret_def call_def
      ok_driver_def release_def user_class_simps new_user_update_args init_state_def)

lemma new_user_saved:
  "fst (snd (save (ok_driver 1) model_base user_class (new_user, init_state))) =
     new_user(''admin'' \<mapsto> PBool False, ''image'' \<mapsto> PStr ''about:blank'')"
  by (simp add: save_def new_user_save_args execute_def execute_try_def bnd_def ret_def call_def
      ok_driver_def release_def)

text \<open>
  C3, as the code has it. \<open>update\<close> binds, for each non-key field in declared order, what
  \<open>getattr\<close> gives for its name, and for the primary key last. For a field whose name is
  not an attribute of the class this is the value stored on the instance, and None when
  nothing is stored. \<open>update\<close> has no default fallback of its own: a field with nothing
  stored is bound as None, whatever default it declares, so a declared default other than
  None is not bound for it. The instance is left as it was, and these arguments with the
  update template are the only statement that reaches the driver.
\<close>

theorem update_binds_current_values:
  "length (update_args base cls self) = length (cls_fields cls) + 1
   \<and> (\<forall>i < length (cls_fields cls).
        update_args base cls self ! i = getValue base cls self (cls_fields cls ! i) \<and>
        (class_attribute base cls (cls_fields cls ! i) = None \<longrightarrow>
           (\<forall>v. self (cls_fields cls ! i) = Some v \<longrightarrow> update_args base cls self ! i = v) \<and>
           (self (cls_fields cls ! i) = None \<longrightarrow>
              update_args base cls self ! i = PNone \<and>
              (\<forall>fld d. map_of (cls_mappings cls) (cls_fields cls ! i) = Some fld \<and>
                       default_value fld = Value d \<and> d \<noteq> PNone \<longrightarrow>
                       update_args base cls self ! i \<noteq> d))))
   \<and> update_args base cls self ! length (cls_fields cls) = getValue base cls self (cls_primary_key cls)
   \<and> (\<forall>drv s r self' s'. update drv base cls (self, s) = (r, (self', s')) \<longrightarrow>
         self' = self \<and>
         set (statements s s') \<subseteq> {Execute (replace_qmark (cls_update cls)) (update_args base cls self)} \<and>
         (r = Inr () \<longrightarrow>
            statements s s' = [Execute (replace_qmark (cls_update cls)) (update_args base cls self)]))"
proof (intro conjI allI impI)
  show "length (update_args base cls self) = length (cls_fields cls) + 1"
    by (simp add: update_args_def)
  show "update_args base cls self ! length (cls_fields cls) = getValue base cls self (cls_primary_key cls)"
    by (simp add: update_args_def nth_append)
next
  fix i assume "i < length (cls_fields cls)"
  then show "update_args base cls self ! i = getValue base cls self (cls_fields cls ! i)"
    by (rule update_args_nth)
next
  fix i v
  assume "i < length (cls_fields cls)" "class_attribute base cls (cls_fields cls ! i) = None"
    "self (cls_fields cls ! i) = Some v"
  then show "update_args base cls self ! i = v" by (simp add: update_args_nth getValue_stored)
next
  fix i
  assume i: "i < length (cls_fields cls)" "class_attribute base cls (cls_fields cls ! i) = None"
    "self (cls_fields cls ! i) = None"
  then show n: "update_args base cls self ! i = PNone" by (simp add: update_args_nth getValue_stored)
  fix fld d
  assume "map_of (cls_mappings cls) (cls_fields cls ! i) = Some fld \<and>
          default_value fld = Value d \<and> d \<noteq> PNone"
  then show "update_args base cls self ! i \<noteq> d" using n by auto
next
  fix drv s r self' s'
  assume up: "update drv base cls (self, s) = (r, (self', s'))"
  note u = update_statements[OF up]
  show "self' = self" using u by simp
  show "set (statements s s') \<subseteq> {Execute (replace_qmark (cls_update cls)) (update_args base cls self)}"
    using u by simp
  show "statements s s' = [Execute (replace_qmark (cls_update cls)) (update_args base cls self)]"
    if "r = Inr ()" using u that by simp
qed

theorem update_binds_current_values_witness:
  "class_attribute model_base user_class ''image'' = None \<and>
   new_user ''image'' = None \<and>
   map_of (cls_mappings user_class) ''image'' =
     Some (StringField None False (Value (PStr ''about:blank'')) ''varchar(500)'') \<and>
   update_args model_base user_class new_user ! 2 = PNone \<and>
   update_args model_base user_class new_user ! 2 \<noteq> PStr ''about:blank'' \<and>
   update_args model_base user_class new_user ! 0 = PStr ''a@example.com'' \<and>
   statements init_state (snd (snd (update (ok_driver 0) model_base user_class (new_user, init_state)))) =
     [Execute ''update `users` set `email`=%s, `admin`=%s, `image`=%s where `id`=%s''
        [PStr ''a@example.com'', PNone, PNone, PStr ''u1'']]"
proof -
  note T = update_binds_current_values[of model_base user_class new_user]
  note T2 = T[THEN conjunct2, THEN conjunct1, rule_format]
  note T4 = T[THEN conjunct2, THEN conjunct2, THEN conjunct2, rule_format]
  have i2: "2 < length (cls_fields user_class)" and i0: "0 < length (cls_fields user_class)"
    by (simp_all add: user_class_simps)
  have c2: "class_attribute model_base user_class (cls_fields user_class ! 2) = None"
    and c0: "class_attribute model_base user_class (cls_fields user_class ! 0) = None"
    by (simp_all add: user_class_simps user_class_no_collision)
  have un: "new_user (cls_fields user_class ! 2) = None"
    and se: "new_user (cls_fields user_class ! 0) = Some (PStr ''a@example.com'')"
    by (simp_all add: user_class_simps new_user_def)
  have m: "map_of (cls_mappings user_class) (cls_fields user_class ! 2) =
             Some (StringField None False (Value (PStr ''about:blank'')) ''varchar(500)'')"
    by (simp add: user_class_simps)
  have dv: "default_value (StringField None False (Value (PStr ''about:blank'')) ''varchar(500)'' :: unit field) =
              Value (PStr ''about:blank'')"
    by (simp add: StringField_def)
  note U = T2[OF i2, THEN conjunct2, rule_format, OF c2, THEN conjunct2, rule_format, OF un]
  have b: "update_args model_base user_class new_user ! 2 = PNone" using U by (rule conjunct1)
  have nb: "update_args model_base user_class new_user ! 2 \<noteq> PStr ''about:blank''"
    using U[THEN conjunct2, rule_format, of "StringField None False (Value (PStr ''about:blank'')) ''varchar(500)''"
            "PStr ''about:blank''"] m dv by simp
  have b0: "update_args model_base user_class new_user ! 0 = PStr ''a@example.com''"
    using T2[OF i0, THEN conjunct2, rule_format, OF c0, THEN conjunct1, rule_format, OF se] .
  have u: "update (ok_driver 0) model_base user_class (new_user, init_state) =
     (Inr (), (new_user, snd (snd (update (ok_driver 0) model_base user_class (new_user, init_state)))))"
    by (simp add: new_user_update)
  have "statements init_state (snd (snd (update (ok_driver 0) model_base user_class (new_user, init_state)))) =
      [Execute (replace_qmark (cls_update user_class)) (update_args model_base user_class new_user)]"
    using T4[OF u] by simp
  then have st: "statements init_state (snd (snd (update (ok_driver 0) model_base user_class (new_user, init_state)))) =
     [Execute ''update `users` set `email`=%s, `admin`=%s, `image`=%s where `id`=%s''
        [PStr ''a@example.com'', PNone, PNone, PStr ''u1'']]"
    by (simp add: user_class_simps new_user_update_args)
  have n1: "new_user ''image'' = None" by (simp add: new_user_def)
  have n2: "map_of (cls_mappings user_class) ''image'' =
     Some (StringField None False (Value (PStr ''about:blank'')) ''varchar(500)'')"
    by (simp add: user_class_simps)
  show ?thesis using user_class_no_collision(4) n1 n2 b nb b0 st by (intro conjI)
qed

text \<open>
  C3 as stated fails after a \<open>save\<close>: \<open>getValueOrDefault\<close> stores each default it resolves
  on the instance, so for a user made with \<open>id\<close> and \<open>email\<close> only, on which \<open>image\<close> was
  never set by the caller, \<open>save\<close> followed by \<open>update\<close> binds the declared default
  \<open>about:blank\<close> for \<open>image\<close>.
\<close>

theorem update_after_save_counterexample:
  "new_user ''image'' = None \<and>
   map_of (cls_mappings user_class) ''image'' =
     Some (StringField None False (Value (PStr ''about:blank'')) ''varchar(500)'') \<and>
   default_value (StringField None False (Value (PStr ''about:blank'')) ''varchar(500)'' :: unit field) =
     Value (PStr ''about:blank'') \<and>
   cls_fields user_class ! 2 = ''image'' \<and>
   fst (save (ok_driver 1) model_base user_class (new_user, init_state)) = Inr () \<and>
   update_args model_base user_class
     (fst (snd (save (ok_driver 1) model_base user_class (new_user, init_state)))) ! 2 =
     PStr ''about:blank''"
proof -
  have a: "new_user ''image'' = None" by (simp add: new_user_def)
  have b: "map_of (cls_mappings user_class) ''image'' =
     Some (StringField None False (Value (PStr ''about:blank'')) ''varchar(500)'')"
    by (simp add: user_class_simps)
  have c: "default_value (StringField None False (Value (PStr ''about:blank'')) ''varchar(500)'' :: unit field) =
     Value (PStr ''about:blank'')"
    by (simp add: StringField_def)
  have d: "cls_fields user_class ! 2 = ''image''" by (simp add: user_class_simps)
  have e: "update_args model_base user_class
     (fst (snd (save (ok_driver 1) model_base user_class (new_user, init_state)))) ! 2 =
     PStr ''about:blank''"
    by (simp add: new_user_saved update_args_def new_user_values user_class_simps)
  show ?thesis using a b c d new_user_save_returns e by (intro conjI)
qed

text \<open>
  C9, as the code has it. The update template of a derived class has one assignment
  \<open>`column`=?\<close> for every non-key field, in declared order, whatever the instance holds;
  the column is the field's own \<open>name\<close> when it has one, and the attribute name otherwise
  (every non-key field has its Field in the mappings).
  \<open>update\<close> binds one argument to each assignment and one to the key. A field with
  nothing stored on the instance, whose name is not an attribute of the class as well, is
  bound as None, so the statement that reaches the driver sets that column to NULL.
\<close>

theorem update_sets_every_column:
  assumes derived: "ModelMetaclass_new name attrs = Inr (Entity cls)"
      and names: "\<forall>k \<in> set (map fst attrs). k \<noteq> []"
  shows "cls_update cls =
           ''update `'' @ cls_table cls @ ''` set '' @
           join '', ''
             (map (\<lambda>f. ''`'' @
                        (case field_name (the (map_of (cls_mappings cls) f)) of
                           None \<Rightarrow> f
                         | Some n \<Rightarrow> if n = [] then f else n) @ ''`=?'')
                  (cls_fields cls)) @
           '' where `'' @ cls_primary_key cls @ ''`=?''
       \<and> (\<forall>self. length (update_args base cls self) = length (cls_fields cls) + 1)
       \<and> (\<forall>self i. i < length (cls_fields cls) \<and>
                    class_attribute base cls (cls_fields cls ! i) = None \<and>
                    self (cls_fields cls ! i) = None \<longrightarrow>
             update_args base cls self ! i = PNone)
       \<and> (\<forall>self drv s st'. update drv base cls (self, s) = (Inr (), st') \<longrightarrow>
             statements s (snd st') =
               [Execute (replace_qmark (cls_update cls)) (update_args base cls self)])
       \<and> (\<forall>f \<in> set (cls_fields cls). map_of (cls_mappings cls) f \<noteq> None)"
proof -
  from entity_derived[OF derived names] obtain pk where
    cls: "cls = entity_class name attrs pk" by blast
  have m: "\<forall>f \<in> set (cls_fields cls). map_of (cls_mappings cls) f \<noteq> None"
  proof
    fix f assume "f \<in> set (cls_fields cls)"
    then have "f \<in> fst ` set (cls_mappings cls)"
      using derived_columns(1)[OF derived names] by auto
    then show "map_of (cls_mappings cls) f \<noteq> None"
      by (simp add: map_of_eq_None_iff)
  qed
  have t: "cls_update cls =
           ''update `'' @ cls_table cls @ ''` set '' @
           join '', ''
             (map (\<lambda>f. ''`'' @
                        (case field_name (the (map_of (cls_mappings cls) f)) of
                           None \<Rightarrow> f
                         | Some n \<Rightarrow> if n = [] then f else n) @ ''`=?'')
                  (cls_fields cls)) @
           '' where `'' @ cls_primary_key cls @ ''`=?''"
    by (simp add: cls entity_class_def column_name_def)
  have l: "\<forall>self. length (update_args base cls self) = length (cls_fields cls) + 1"
    by (simp add: update_args_def)
  have n: "\<forall>self i. i < length (cls_fields cls) \<and>
                    class_attribute base cls (cls_fields cls ! i) = None \<and>
                    self (cls_fields cls ! i) = None \<longrightarrow>
             update_args base cls self ! i = PNone"
    by (simp add: update_args_nth getValue_stored)
  have s: "\<forall>self drv s st'. update drv base cls (self, s) = (Inr (), st') \<longrightarrow>
             statements s (snd st') =
               [Execute (replace_qmark (cls_update cls)) (update_args base cls self)]"
  proof (intro allI impI)
    fix self drv s st' assume u: "update drv base cls (self, s) = (Inr (), st')"
    obtain self' s' where "st' = (self', s')" by (cases st')
    then show "statements s (snd st') =
               [Execute (replace_qmark (cls_update cls)) (update_args base cls self)]"
      using update_statements[of drv base cls self s "Inr ()" self' s'] u by simp
  qed
  from t l n s m show ?thesis by (intro conjI)
qed

theorem update_sets_every_column_witness:
  "ModelMetaclass_new ''Tag'' tag_attrs = Inr (Entity tag_class) \<and>
   [] \<notin> set (map fst tag_attrs) \<and>
   cls_update tag_class = ''update `Tag` set `keys`=?, `title`=? where `id`=?'' \<and>
   length (update_args model_base tag_class new_tag) = 3 \<and>
   class_attribute model_base tag_class ''label'' = None \<and>
   new_tag ''label'' = None \<and> update_args model_base tag_class new_tag ! 1 = PNone \<and>
   statements init_state (snd (snd (update (ok_driver 1) model_base tag_class (new_tag, init_state)))) =
     [Execute ''update `Tag` set `keys`=%s, `title`=%s where `id`=%s''
        [PObject True ''keys'', PNone, PStr ''t1'']]"
proof -
  have k: "\<forall>k \<in> set (map fst tag_attrs). k \<noteq> []" by (simp add: tag_attrs_def)
  note T = update_sets_every_column[OF tag_class_derived k, of model_base]
  note T1 = T[THEN conjunct1]
  note T2 = T[THEN conjunct2, THEN conjunct1, rule_format]
  note T3 = T[THEN conjunct2, THEN conjunct2, THEN conjunct1, rule_format]
  note T4 = T[THEN conjunct2, THEN conjunct2, THEN conjunct2, THEN conjunct1, rule_format]
  have t: "cls_update tag_class = ''update `Tag` set `keys`=?, `title`=? where `id`=?''"
    using T1 by (simp add: tag_class_simps StringField_def)
  have l: "length (update_args model_base tag_class new_tag) = 3"
    using T2[of new_tag] by (simp add: tag_class_simps)
  have un: "new_tag ''label'' = None" by (simp add: new_tag_def)
  have b: "update_args model_base tag_class new_tag ! 1 = PNone"
    using T3[of 1 new_tag] un tag_class_attributes(2) by (simp add: tag_class_simps)
  have ua: "update_args model_base tag_class new_tag = [PObject True ''keys'', PNone, PStr ''t1'']"
    by (simp add: update_args_def tag_class_simps getValue_def tag_class_attributes new_tag_def)
  have u: "update (ok_driver 1) model_base tag_class (new_tag, init_state) =
     (Inr (), snd (update (ok_driver 1) model_base tag_class (new_tag, init_state)))"
    by (simp add: update_def execute_def execute_try_def bnd_def ret_def call_def
      ok_driver_def release_def split: prod.splits)
  have "statements init_state (snd (snd (update (ok_driver 1) model_base tag_class (new_tag, init_state)))) =
      [Execute (replace_qmark (cls_update tag_class)) (update_args model_base tag_class new_tag)]"
    using T4[OF u] .
  then have st: "statements init_state (snd (snd (update (ok_driver 1) model_base tag_class (new_tag, init_state)))) =
     [Execute ''update `Tag` set `keys`=%s, `title`=%s where `id`=%s''
        [PObject True ''keys'', PNone, PStr ''t1'']]"
    by (simp add: tag_class_simps ua)
  have e: "[] \<notin> set (map fst tag_attrs)" by (simp add: tag_attrs_def)
  show ?thesis using tag_class_derived e t l tag_class_attributes(2) un b st by (intro conjI)
qed

text \<open>
  C9 as stated fails for a field named like an attribute of the class: on a class with a
  field \<open>keys\<close>, for an instance on which \<open>keys\<close> was never set, \<open>getattr\<close> finds the
  method \<open>dict.keys\<close>, and \<open>update\<close> binds that bound method, not None.
\<close>

theorem update_binds_method_counterexample:
  "ModelMetaclass_new ''Tag'' tag_attrs = Inr (Entity tag_class) \<and>
   cls_fields tag_class ! 0 = ''keys'' \<and>
   new_tag ''keys'' = None \<and>
   model_base ''keys'' = Some (PObject True ''keys'') \<and>
   update_args model_base tag_class new_tag ! 0 = PObject True ''keys'' \<and>
   update_args model_base tag_class new_tag ! 0 \<noteq> PNone"
  using tag_class_derived
  by (simp add: update_args_def tag_class_simps getValue_def tag_class_attributes new_tag_def
      model_base_def)

lemma ok_driver_execute:
  "execute (ok_driver n) sql args True init_state =
     (Inr n, init_state\<lparr>trace := [Acquire, Cursor, Execute (replace_qmark sql) args, Close, Release]\<rparr>)"
  by (simp add: execute_def execute_try_def bnd_def ret_def call_def ok_driver_def release_def
      init_state_def)

text \<open>
  C5. Whatever affected-row count \<open>execute\<close> returns to \<open>save\<close>, \<open>update\<close> or \<open>remove\<close>,
  the operation returns normally; a count other than 1 adds one warning to the log and
  nothing else, and a count of 1 adds none.
\<close>

theorem persistence_soft_failure:
  "(\<forall>args self1 s1 rows s2.
       save_args base cls (self, s) = (Inr args, (self1, s1)) \<and>
       execute drv (cls_insert cls) args True s1 = (Inr rows, s2) \<longrightarrow>
       save drv base cls (self, s) =
         (Inr (), (self1, s2\<lparr>warnings := warnings s @
            (if rows \<noteq> 1 then [(''failed to insert record: affected rows: %s'', PInt rows)] else [])\<rparr>)))
   \<and> (\<forall>rows s2.
       execute drv (cls_update cls) (update_args base cls self) True s = (Inr rows, s2) \<longrightarrow>
       update drv base cls (self, s) =
         (Inr (), (self, s2\<lparr>warnings := warnings s @
            (if rows \<noteq> 1 then [(''failed to update by primary key: affected rows: %s'', PInt rows)] else [])\<rparr>)))
   \<and> (\<forall>rows s2.
       execute drv (cls_delete cls) [getValue base cls self (cls_primary_key cls)] True s = (Inr rows, s2) \<longrightarrow>
       remove drv base cls (self, s) =
         (Inr (), (self, s2\<lparr>warnings := warnings s @
            (if rows \<noteq> 1 then [(''failed to remove by primary key: affected rows: %s'', PInt rows)] else [])\<rparr>)))"
proof (intro conjI allI impI)
  fix args self1 s1 rows s2
  assume h: "save_args base cls (self, s) = (Inr args, (self1, s1)) \<and>
       execute drv (cls_insert cls) args True s1 = (Inr rows, s2)"
  have "warnings s2 = warnings s"
    using h save_args_frame[of base cls self s "Inr args" self1 s1]
      execute_frame[of drv "cls_insert cls" args True s1 "Inr rows" s2] by simp
  then show "save drv base cls (self, s) =
         (Inr (), (self1, s2\<lparr>warnings := warnings s @
            (if rows \<noteq> 1 then [(''failed to insert record: affected rows: %s'', PInt rows)] else [])\<rparr>))"
    using h by (simp add: save_def warn_def)
next
  fix rows s2
  assume h: "execute drv (cls_update cls) (update_args base cls self) True s = (Inr rows, s2)"
  have "warnings s2 = warnings s" using execute_frame[OF h] by simp
  then show "update drv base cls (self, s) =
         (Inr (), (self, s2\<lparr>warnings := warnings s @
            (if rows \<noteq> 1 then [(''failed to update by primary key: affected rows: %s'', PInt rows)] else [])\<rparr>))"
    using h by (simp add: update_def warn_def)
next
  fix rows s2
  assume h: "execute drv (cls_delete cls) [getValue base cls self (cls_primary_key cls)] True s = (Inr rows, s2)"
  have "warnings s2 = warnings s" using execute_frame[OF h] by simp
  then show "remove drv base cls (self, s) =
         (Inr (), (self, s2\<lparr>warnings := warnings s @
            (if rows \<noteq> 1 then [(''failed to remove by primary key: affected rows: %s'', PInt rows)] else [])\<rparr>))"
    using h by (simp add: remove_def warn_def)
qed

theorem persistence_soft_failure_witness:
  "fst (execute (ok_driver 0) (cls_insert user_class)
          [PStr ''a@example.com'', PBool False, PStr ''about:blank'', PStr ''u1''] True init_state) = Inr 0 \<and>
   fst (save (ok_driver 0) model_base user_class (new_user, init_state)) = Inr () \<and>
   warnings (snd (snd (save (ok_driver 0) model_base user_class (new_user, init_state)))) =
     [(''failed to insert record: affected rows: %s'', PInt 0)] \<and>
   fst (update (ok_driver 2) model_base user_class (new_user, init_state)) = Inr () \<and>
   warnings (snd (snd (update (ok_driver 2) model_base user_class (new_user, init_state)))) =
     [(''failed to update by primary key: affected rows: %s'', PInt 2)] \<and>
   fst (remove (ok_driver 1) model_base user_class (new_user, init_state)) = Inr () \<and>
   warnings (snd (snd (remove (ok_driver 1) model_base user_class (new_user, init_state)))) = []"
proof -
  note S = persistence_soft_failure[of model_base user_class new_user init_state "ok_driver 0",
      THEN conjunct1, rule_format, OF conjI, OF new_user_save_args ok_driver_execute]
  note U = persistence_soft_failure[of model_base user_class new_user init_state "ok_driver 2",
      THEN conjunct2, THEN conjunct1, rule_format, OF ok_driver_execute]
  note R = persistence_soft_failure[of model_base user_class new_user init_state "ok_driver 1",
      THEN conjunct2, THEN conjunct2, rule_format, OF ok_driver_execute]
  have w0: "warnings init_state = []" by (simp add: init_state_def)
  show ?thesis
    unfolding S U R by (simp add: ok_driver_execute w0)
qed

section \<open>Properties of findAll\<close>

lemma select_statements:
  assumes "select drv q args sz s = (r, s')"
  shows "\<exists>evs. trace s' = trace s @ evs \<and>
           set (filter is_statement evs) \<subseteq> {Execute (replace_qmark q) args} \<and>
           (\<forall>rs. r = Inr rs \<longrightarrow> filter is_statement evs = [Execute (replace_qmark q) args])"
proof (cases "call Acquire (pool_acquire drv) s")
  case (Pair r0 s0)
  note acq = Pair
  have t0: "trace s0 = trace s @ [Acquire]" using call_trace[OF acq] .
  show ?thesis
  proof (cases r0)
    case (Inl e)
    then show ?thesis using assms acq t0 by (auto simp: select_def)
  next
    case (Inr u)
    obtain r1 s1 where c: "call DictCursor (conn_cursor drv) s0 = (r1, s1)"
      by (cases "call DictCursor (conn_cursor drv) s0")
    have t1: "trace s1 = trace s @ [Acquire, DictCursor]" using call_trace[OF c] t0 by simp
    show ?thesis
    proof (cases r1)
      case (Inl e)
      then show ?thesis using assms acq Inr c t1 by (auto simp: select_def bnd_def release_def)
    next
      case (Inr u1)
      obtain r2 s2 where x: "call (Execute (replace_qmark q) args) (cur_execute drv (replace_qmark q) args) s1 = (r2, s2)"
        by (cases "call (Execute (replace_qmark q) args) (cur_execute drv (replace_qmark q) args) s1")
      have t2: "trace s2 = trace s @ [Acquire, DictCursor, Execute (replace_qmark q) args]"
        using call_trace[OF x] t1 by simp
      show ?thesis
      proof (cases r2)
        case (Inl e)
        then show ?thesis using assms acq \<open>r0 = Inr u\<close> c \<open>r1 = Inr u1\<close> x t2
          by (auto simp: select_def bnd_def release_def)
      next
        case (Inr n)
        then show ?thesis using assms acq \<open>r0 = Inr u\<close> c \<open>r1 = Inr u1\<close> x t2
          by (auto simp: select_def bnd_def ret_def release_def
              split: option.splits if_splits prod.splits sum.splits dest!: call_trace)
      qed
    qed
  qed
qed

lemma select_frame:
  assumes "select drv q args sz s = (r, s')"
  shows "warnings s' = warnings s \<and> store s' = store s"
  using assms
  by (auto simp: select_def bnd_def ret_def release_def
      split: option.splits if_splits prod.splits sum.splits dest!: call_frame)


lemma run_query_statements:
  assumes "run_query drv sql ref s = (r, s')"
  shows "store s' = store s \<and> warnings s' = warnings s \<and>
         (\<forall>e. py_join '' '' sql = Inl e \<longrightarrow> r = Inl e \<and> s' = s) \<and>
         (\<forall>q. py_join '' '' sql = Inr q \<longrightarrow>
            set (statements s s') \<subseteq> {Execute (replace_qmark q) (args_read ref s)} \<and>
            (\<forall>rs. r = Inr rs \<longrightarrow> statements s s' = [Execute (replace_qmark q) (args_read ref s)]))"
proof (cases "py_join '' '' sql")
  case (Inl e)
  then show ?thesis using assms by (simp add: run_query_def)
next
  case (Inr q)
  then have sel: "select drv q (args_read ref s) None s = (r, s')"
    using assms by (simp add: run_query_def)
  from select_statements[OF sel] obtain evs where
    "trace s' = trace s @ evs"
    "set (filter is_statement evs) \<subseteq> {Execute (replace_qmark q) (args_read ref s)}"
    "\<forall>rs. r = Inr rs \<longrightarrow> filter is_statement evs = [Execute (replace_qmark q) (args_read ref s)]"
    by blast
  then show ?thesis using Inr select_frame[OF sel] by (simp add: statements_append)
qed

lemma statements_same_trace:
  "trace s1 = trace s \<Longrightarrow> statements s1 s' = statements s s'"
  by (simp add: statements_def)






lemma findAll_valid_limit:
  assumes run: "findAll drv cls wher args kw s = (r, s')"
      and lim: "limit_values (kw_get kw ''limit'') = Some vs"
  shows "\<exists>p s1. p = (if isinstance_int (kw_get kw ''limit'') then ''?'' else ''?,?'') \<and>
           s1 = (case args of None \<Rightarrow> s
                 | Some a \<Rightarrow> s\<lparr>store := (store s)(a := store s a @ vs)\<rparr>) \<and>
           run_query drv (findAll_sql cls wher kw @ [PStr ''limit'', PStr p])
             (case args of None \<Rightarrow> Fresh vs | Some a \<Rightarrow> Shared a) s1 = (r, s')"
proof -
  let ?l = "kw_get kw ''limit''"
  have ne: "?l \<noteq> PNone" using lim by (auto simp: limit_values_def)
  show ?thesis
  proof (cases "isinstance_int ?l")
    case True
    then have "vs = [?l]" using lim by (simp add: limit_values_def)
    then show ?thesis using run ne True
      by (cases args) (simp_all add: findAll_def Let_def args_extend_def)
  next
    case False
    then obtain a b where ab: "?l = PTuple [a, b]" "vs = [a, b]" using lim
      by (auto simp: limit_values_def split: pyval.splits list.splits)
    then show ?thesis using run ne False
      by (cases args) (simp_all add: findAll_def Let_def args_extend_def)
  qed
qed







text \<open>
  C10. When \<open>findAll\<close> is called with a limit that is an int or a pair and with the
  caller's own list as \<open>args\<close>, that list holds the limit values at its end afterwards,
  whatever the outcome of the query, every other list of the store is as before, and the
  statement that reaches the driver carries the extended list. When \<open>args\<close> is None the
  store is not changed at all: the values go into a list of \<open>findAll\<close>'s own.
\<close>

theorem findAll_mutates_caller_args:
  assumes run: "findAll drv cls wher args kw s = (r, s')"
      and lim: "limit_values (kw_get kw ''limit'') = Some vs"
  shows "(\<forall>a. args = Some a \<longrightarrow>
            store s' a = store s a @ vs \<and> (\<forall>b. b \<noteq> a \<longrightarrow> store s' b = store s b) \<and>
            (\<forall>q as. Execute q as \<in> set (statements s s') \<longrightarrow> as = store s a @ vs))
       \<and> (args = None \<longrightarrow>
            store s' = store s \<and>
            (\<forall>q as. Execute q as \<in> set (statements s s') \<longrightarrow> as = vs))"
proof -
  from findAll_valid_limit[OF run lim] obtain p s1 where
    s1: "s1 = (case args of None \<Rightarrow> s | Some a \<Rightarrow> s\<lparr>store := (store s)(a := store s a @ vs)\<rparr>)"
    and rq: "run_query drv (findAll_sql cls wher kw @ [PStr ''limit'', PStr p])
             (case args of None \<Rightarrow> Fresh vs | Some a \<Rightarrow> Shared a) s1 = (r, s')"
    by auto
  note R = run_query_statements[OF rq]
  have tr: "trace s1 = trace s" using s1 by (cases args) simp_all
  have rd: "args_read (case args of None \<Rightarrow> Fresh vs | Some a \<Rightarrow> Shared a) s1 = args_before args s @ vs"
    using s1 by (cases args) (simp_all add: args_read_def args_before_def)
  have bound: "as = args_before args s @ vs" if "Execute q as \<in> set (statements s s')" for q as
  proof (cases "py_join '' '' (findAll_sql cls wher kw @ [PStr ''limit'', PStr p])")
    case (Inl e)
    then have "s' = s1" using R by simp
    then have "statements s s' = []" using tr by (simp add: statements_def)
    then show ?thesis using that by simp
  next
    case (Inr q')
    then have "set (statements s s') \<subseteq> {Execute (replace_qmark q') (args_before args s @ vs)}"
      using R rd statements_same_trace[OF tr, of s'] by simp
    then show ?thesis using that by auto
  qed
  have st: "store s' = store s1" using R by simp
  show ?thesis
  proof (intro conjI allI impI)
    fix a assume a: "args = Some a"
    show "store s' a = store s a @ vs" using st s1 a by simp
    show "as = store s a @ vs" if "Execute q as \<in> set (statements s s')" for q as
      using bound[OF that] a by (simp add: args_before_def)
    fix b assume "b \<noteq> a"
    then show "store s' b = store s b" using st s1 a by simp
  next
    assume n: "args = None"
    show "store s' = store s" using st s1 n by simp
    show "as = vs" if "Execute q as \<in> set (statements s s')" for q as
      using bound[OF that] n by (simp add: args_before_def)
  qed
qed

theorem findAll_mutates_caller_args_witness:
  "limit_values (kw_get [(''limit'', PInt 10)] ''limit'') = Some [PInt 10] \<and>
   store query_state 0 = [PStr ''a@example.com''] \<and>
   store (snd (findAll (ok_driver 0) user_class (PStr ''email=?'') (Some 0) [(''limit'', PInt 10)] query_state)) 0 =
     [PStr ''a@example.com'', PInt 10] \<and>
   limit_values (kw_get [(''limit'', PTuple [PInt 20, PInt 10])] ''limit'') = Some [PInt 20, PInt 10] \<and>
   store (snd (findAll (ok_driver 0) user_class PNone (Some 0) [(''limit'', PTuple [PInt 20, PInt 10])] query_state)) 0 =
     [PStr ''a@example.com'', PInt 20, PInt 10] \<and>
   store (snd (findAll (ok_driver 0) user_class PNone None [(''limit'', PInt 10)] query_state)) =
     store query_state"
proof -
  let ?kw = "[(''limit'', PInt 10)]"
  let ?kw2 = "[(''limit'', PTuple [PInt 20, PInt 10])]"
  let ?r1 = "findAll (ok_driver 0) user_class (PStr ''email=?'') (Some 0) ?kw query_state"
  let ?r2 = "findAll (ok_driver 0) user_class PNone (Some 0) ?kw2 query_state"
  let ?r3 = "findAll (ok_driver 0) user_class PNone None ?kw query_state"
  have lv: "limit_values (kw_get ?kw ''limit'') = Some [PInt 10]"
    and lv2: "limit_values (kw_get ?kw2 ''limit'') = Some [PInt 20, PInt 10]"
    by (simp_all add: kw_get_def limit_values_def)
  have s0: "store query_state 0 = [PStr ''a@example.com'']" by (simp add: query_state_def)
  have p1: "?r1 = (fst ?r1, snd ?r1)" and p2: "?r2 = (fst ?r2, snd ?r2)"
    and p3: "?r3 = (fst ?r3, snd ?r3)" by simp_all
  note A = findAll_mutates_caller_args[OF p1 lv, THEN conjunct1, rule_format, OF refl, THEN conjunct1]
  note B = findAll_mutates_caller_args[OF p2 lv2, THEN conjunct1, rule_format, OF refl, THEN conjunct1]
  note C = findAll_mutates_caller_args[OF p3 lv, THEN conjunct2, rule_format, OF refl, THEN conjunct1]
  have a: "store (snd ?r1) 0 = [PStr ''a@example.com'', PInt 10]" using A s0 by simp
  have b: "store (snd ?r2) 0 = [PStr ''a@example.com'', PInt 20, PInt 10]" using B s0 by simp
  show ?thesis using lv s0 a lv2 b C by (intro conjI)
qed

section \<open>Properties of the argument binder\<close>

lemma named_copy_fold:
  "map_of (foldl (\<lambda>copy name. case map_of kw name of None \<Rightarrow> copy | Some v \<Rightarrow> dict_set copy name v) c names) k =
     (if k \<in> set names \<and> map_of kw k \<noteq> None then map_of kw k else map_of c k)"
  by (induction names arbitrary: c) (auto simp: map_of_dict_set split: option.splits)

lemma map_of_named_copy:
  "map_of (named_copy names kw) k = (if k \<in> set names then map_of kw k else None)"
  by (simp add: named_copy_def named_copy_fold)

lemma map_of_rev_Cons:
  "map_of (rev ((k, v) # rest)) k' =
     (case map_of (rev rest) k' of Some w \<Rightarrow> Some w | None \<Rightarrow> if k' = k then Some v else None)"
  by (simp add: map_add_def split: option.splits)

lemma map_of_overlay:
  "map_of (fst (overlay mi kw s)) k =
     (case map_of (rev mi) k of Some v \<Rightarrow> Some (PStr v) | None \<Rightarrow> map_of kw k)"
proof (induction mi arbitrary: kw s)
  case Nil then show ?case by simp
next
  case (Cons a mi)
  obtain k0 v0 where a: "a = (k0, v0)" by (cases a)
  show ?case using Cons[of "dict_set kw k0 (PStr v0)"] a
    by (simp add: map_of_dict_set map_add_def split: option.splits)
qed

lemma map_of_match_info:
  "map_of (foldl (\<lambda>d (k, v). dict_set d k (PStr v)) d0 mi) k =
     (case map_of (rev mi) k of Some v \<Rightarrow> Some (PStr v) | None \<Rightarrow> map_of d0 k)"
proof (induction mi arbitrary: d0)
  case Nil then show ?case by simp
next
  case (Cons a mi)
  obtain k0 v0 where a: "a = (k0, v0)" by (cases a)
  show ?case using Cons[of "dict_set d0 k0 (PStr v0)"] a
    by (simp add: map_of_dict_set map_add_def split: option.splits)
qed

lemma reconcile_kw:
  assumes "reconcile h request parsed s = (kw, s1)"
  shows "map_of kw k =
     (if h_has_request_arg h \<and> k = ''request'' then Some PRequest
      else case path_value request k of
             Some v \<Rightarrow> Some (PStr v)
           | None \<Rightarrow>
               (case parsed of
                  None \<Rightarrow> None
                | Some raw \<Rightarrow>
                    if \<not> h_has_var_kw_arg h \<and> h_named_kw_args h \<noteq> []
                    then (if k \<in> set (h_named_kw_args h) then map_of raw k else None)
                    else map_of raw k))"
proof (cases parsed)
  case None
  then show ?thesis using assms
    by (auto simp: reconcile_def path_value_def map_of_dict_set map_of_match_info split: option.splits)
next
  case (Some raw)
  let ?kw0 = "if \<not> h_has_var_kw_arg h \<and> h_named_kw_args h \<noteq> [] then named_copy (h_named_kw_args h) raw else raw"
  obtain kw1 s' where ov: "overlay (req_match_info request) ?kw0 s = (kw1, s')"
    by (cases "overlay (req_match_info request) ?kw0 s")
  have m: "map_of kw1 k = (case map_of (rev (req_match_info request)) k of
                             Some v \<Rightarrow> Some (PStr v) | None \<Rightarrow> map_of ?kw0 k)"
    using map_of_overlay[of "req_match_info request" ?kw0 s k] ov by simp
  have kw: "kw = (if h_has_request_arg h then dict_set kw1 ''request'' PRequest else kw1)"
    using assms Some ov by (simp add: reconcile_def)
  show ?thesis using Some
    by (simp add: kw m path_value_def map_of_dict_set map_of_named_copy split: option.splits)
qed

lemma required_subset_named: "set (get_required_kw_args ps) \<subseteq> set (get_named_kw_args ps)"
  by (auto simp: get_required_kw_args_def get_named_kw_args_def)

lemma missing_arg_Some:
  "missing_arg required kw = Some name \<Longrightarrow> name \<in> set required \<and> map_of kw name = None"
  by (auto simp: missing_arg_def find_Some_iff)

lemma missing_arg_None:
  "missing_arg required kw = None \<longleftrightarrow> (\<forall>n \<in> set required. map_of kw n \<noteq> None)"
  by (auto simp: missing_arg_def find_None_iff)

lemma init_fields:
  assumes "RequestHandler_init fn = Inr h"
  shows "h_func h = fn_call fn" "h_has_var_kw_arg h = has_var_kw_arg (fn_params fn)"
    "h_named_kw_args h = get_named_kw_args (fn_params fn)"
    "h_required_kw_args h = get_required_kw_args (fn_params fn)"
    "h_has_named_kw_args h = has_named_kw_args (fn_params fn)"
  using assms by (auto simp: RequestHandler_init_def split: sum.splits)

lemma create_comment_init: "RequestHandler_init create_comment_fn = Inr create_comment"
  by (simp add: RequestHandler_init_def has_request_arg_def create_comment_fn_def create_comment_def
      has_var_kw_arg_def has_named_kw_args_def get_named_kw_args_def get_required_kw_args_def)

lemma create_comment_params:
  "get_required_kw_args (fn_params create_comment_fn) = [''content'']"
  "get_named_kw_args (fn_params create_comment_fn) = [''content'']"
  "\<not> has_var_kw_arg (fn_params create_comment_fn)"
  by (simp_all add: create_comment_fn_def has_var_kw_arg_def get_named_kw_args_def
      get_required_kw_args_def)

lemma lower_json: "lower ''application/json'' = ''application/json''"
  by (simp add: lower_def lower_char_def)

lemma comment_request_parsed:
  "parse_request bad create_comment comment_request =
     Inr (Next (Some [(''content'', PStr ''hi''), (''extra'', PInt 1)]))"
  "parse_request bad create_comment empty_request = Inr (Next (Some [(''extra'', PInt 1)]))"
  by (simp_all add: parse_request_def parse_post_def create_comment_def comment_request_def
      empty_request_def lower_json startswith_def)

lemma comment_request_reconciled:
  "reconcile create_comment comment_request (Some [(''content'', PStr ''hi''), (''extra'', PInt 1)]) init_state =
     ([(''content'', PStr ''hi''), (''id'', PStr ''7''), (''request'', PRequest)], init_state)"
  "reconcile create_comment empty_request (Some [(''extra'', PInt 1)]) init_state =
     ([(''id'', PStr ''7''), (''request'', PRequest)], init_state)"
  by (simp_all add: reconcile_def create_comment_def comment_request_def empty_request_def
      named_copy_def)

lemma parse_request_func:
  "parse_request bad (h\<lparr>h_func := f\<rparr>) request = parse_request bad h request"
  by (simp add: parse_request_def)

lemma reconcile_func:
  "reconcile (h\<lparr>h_func := f\<rparr>) request parsed s = reconcile h request parsed s"
  by (cases parsed) (simp_all add: reconcile_def)

text \<open>
  With the constructor as aiohttp has it, the call \<open>web.HTTPBadRequest('Missing argument:
  content')\<close> of the dispatcher raises TypeError: the request that lacks \<open>content\<close> ends in
  that exception and not in a 400 response.
\<close>

lemma missing_argument_raises:
  "RequestHandler_call aiohttp_HTTPBadRequest create_comment empty_request init_state =
     (Inl (TypeError ''__init__() takes 1 positional argument''), init_state)"
  by (simp add: RequestHandler_call_def comment_request_parsed comment_request_reconciled
      missing_arg_def)
     (simp add: create_comment_def aiohttp_HTTPBadRequest_def)

text \<open>
  C6, as the code has it. Take a handler that declares required keyword-only parameters
  and no \<open>**kw\<close>, and a request that got as far as the reconciliation. The mapping the
  dispatcher ends with holds, for each name: the request object under \<open>request\<close> when the
  handler has a \<open>request\<close> parameter; else the path value of that name; else, when the
  request gave a body or a query, the raw value if the name is a keyword-only parameter
  of the handler, and nothing otherwise. If a required parameter is missing from this
  mapping, the handler is not called: the outcome is the same whatever the body of the
  handler is. If none is missing, the handler is called with this mapping, and an APIError
  it raises comes back as a dictionary.
\<close>

theorem dispatch_binding:
  assumes init: "RequestHandler_init fn = Inr h"
      and req: "get_required_kw_args (fn_params fn) \<noteq> []"
      and novar: "\<not> has_var_kw_arg (fn_params fn)"
      and parsed: "parse_request bad h request = Inr (Next parsed)"
      and rec: "reconcile h request parsed s = (kw, s1)"
  shows "(\<forall>k. map_of kw k =
            (if h_has_request_arg h \<and> k = ''request'' then Some PRequest
             else case path_value request k of
                    Some v \<Rightarrow> Some (PStr v)
                  | None \<Rightarrow>
                      (case parsed of
                         None \<Rightarrow> None
                       | Some raw \<Rightarrow>
                           if k \<in> set (get_named_kw_args (fn_params fn)) then map_of raw k else None)))
       \<and> ((\<exists>n \<in> set (get_required_kw_args (fn_params fn)). map_of kw n = None) \<longrightarrow>
            (\<forall>f. RequestHandler_call bad (h\<lparr>h_func := f\<rparr>) request s =
                 RequestHandler_call bad h request s))
       \<and> ((\<forall>n \<in> set (get_required_kw_args (fn_params fn)). map_of kw n \<noteq> None) \<longrightarrow>
            RequestHandler_call bad h request s =
              (case fn_call fn kw s1 of
                 (Inl (APIError err dat msg), s2) \<Rightarrow>
                   (Inr (PDict [(''error'', PStr err), (''data'', PStr dat), (''message'', PStr msg)]), s2)
               | (r, s2) \<Rightarrow> (r, s2)))"
proof (intro conjI allI impI)
  fix k
  have named: "h_named_kw_args h \<noteq> []"
    using req required_subset_named[of "fn_params fn"] init_fields(3)[OF init] by auto
  show "map_of kw k =
            (if h_has_request_arg h \<and> k = ''request'' then Some PRequest
             else case path_value request k of
                    Some v \<Rightarrow> Some (PStr v)
                  | None \<Rightarrow>
                      (case parsed of
                         None \<Rightarrow> None
                       | Some raw \<Rightarrow>
                           if k \<in> set (get_named_kw_args (fn_params fn)) then map_of raw k else None))"
    using reconcile_kw[OF rec, of k] named novar init_fields(2,3)[OF init]
    by (simp split: option.splits)
next
  fix f
  assume "\<exists>n \<in> set (get_required_kw_args (fn_params fn)). map_of kw n = None"
  then have "missing_arg (h_required_kw_args h) kw \<noteq> None"
    using missing_arg_None[of "h_required_kw_args h" kw] init_fields(4)[OF init] by auto
  then obtain name where m: "missing_arg (h_required_kw_args h) kw = Some name" by auto
  show "RequestHandler_call bad (h\<lparr>h_func := f\<rparr>) request s = RequestHandler_call bad h request s"
    using parsed rec m by (simp add: RequestHandler_call_def parse_request_func reconcile_func)
next
  assume "\<forall>n \<in> set (get_required_kw_args (fn_params fn)). map_of kw n \<noteq> None"
  then have "missing_arg (h_required_kw_args h) kw = None"
    using missing_arg_None[of "h_required_kw_args h" kw] init_fields(4)[OF init] by simp
  then show "RequestHandler_call bad h request s =
              (case fn_call fn kw s1 of
                 (Inl (APIError err dat msg), s2) \<Rightarrow>
                   (Inr (PDict [(''error'', PStr err), (''data'', PStr dat), (''message'', PStr msg)]), s2)
               | (r, s2) \<Rightarrow> (r, s2))"
    using parsed rec init_fields(1)[OF init] by (simp add: RequestHandler_call_def)
qed

theorem dispatch_binding_witness:
  "RequestHandler_init create_comment_fn = Inr create_comment \<and>
   get_required_kw_args (fn_params create_comment_fn) = [''content''] \<and>
   \<not> has_var_kw_arg (fn_params create_comment_fn) \<and>
   RequestHandler_call aiohttp_HTTPBadRequest create_comment comment_request init_state =
     (Inr (PDict [(''content'', PStr ''hi''), (''id'', PStr ''7''), (''request'', PRequest)]), init_state) \<and>
   map_of [(''id'', PStr ''7''), (''request'', PRequest)] ''content'' = None \<and>
   RequestHandler_call aiohttp_HTTPBadRequest (create_comment\<lparr>h_func := (\<lambda>kw. ret PNone)\<rparr>)
       empty_request init_state =
     RequestHandler_call aiohttp_HTTPBadRequest create_comment empty_request init_state"
proof -
  have req: "get_required_kw_args (fn_params create_comment_fn) \<noteq> []"
    by (simp add: create_comment_params)
  note T1 = dispatch_binding[OF create_comment_init req create_comment_params(3)
      comment_request_parsed(1) comment_request_reconciled(1), of aiohttp_HTTPBadRequest,
      THEN conjunct2, THEN conjunct2]
  note T2 = dispatch_binding[OF create_comment_init req create_comment_params(3)
      comment_request_parsed(2) comment_request_reconciled(2), of aiohttp_HTTPBadRequest,
      THEN conjunct2, THEN conjunct1]
  have a: "RequestHandler_call aiohttp_HTTPBadRequest create_comment comment_request init_state =
     (Inr (PDict [(''content'', PStr ''hi''), (''id'', PStr ''7''), (''request'', PRequest)]), init_state)"
  proof -
    have c: "fn_call create_comment_fn = (\<lambda>kw. ret (PDict kw))" by (simp add: create_comment_fn_def)
    show ?thesis using T1 by (simp add: create_comment_params c ret_def)
  qed
  have m: "map_of [(''id'', PStr ''7''), (''request'', PRequest)] ''content'' = None" by simp
  have b: "RequestHandler_call aiohttp_HTTPBadRequest (create_comment\<lparr>h_func := (\<lambda>kw. ret PNone)\<rparr>)
       empty_request init_state =
     RequestHandler_call aiohttp_HTTPBadRequest create_comment empty_request init_state"
    using T2 m by (simp add: create_comment_params)
  show ?thesis
    using create_comment_init create_comment_params(1,3) a m b by (intro conjI)
qed

text \<open>
  C6 as stated fails: the handler \<open>api_create_comment(id, request, *, content)\<close>, for a
  JSON body with \<open>content\<close> and \<open>extra\<close> posted to \<open>/api/blogs/7/comments\<close>, is called
  with \<open>content\<close>, \<open>id\<close> and \<open>request\<close>, not with its keyword-only parameter \<open>content\<close>
  alone.
\<close>

theorem dispatch_extra_arguments_counterexample:
  "h_required_kw_args create_comment = [''content''] \<and>
   h_named_kw_args create_comment = [''content''] \<and>
   \<not> h_has_var_kw_arg create_comment \<and>
   h_func create_comment [(''content'', PStr ''hi''), (''id'', PStr ''7''), (''request'', PRequest)] init_state =
     (Inr (PDict [(''content'', PStr ''hi''), (''id'', PStr ''7''), (''request'', PRequest)]), init_state) \<and>
   RequestHandler_call aiohttp_HTTPBadRequest create_comment comment_request init_state =
     (Inr (PDict [(''content'', PStr ''hi''), (''id'', PStr ''7''), (''request'', PRequest)]), init_state) \<and>
   map fst [(''content'', PStr ''hi''), (''id'', PStr ''7''), (''request'', PRequest)] \<noteq>
     h_named_kw_args create_comment"
  by (simp add: RequestHandler_call_def comment_request_parsed comment_request_reconciled
      missing_arg_def) (simp add: create_comment_def ret_def)

section \<open>Properties of the response normalizer\<close>

lemma normalize_status:
  "is_status r \<Longrightarrow> normalize E request r = new_response (web_Response E [r] [])"
  by (cases r) (auto simp: is_status_def)

lemma normalize_status_int:
  assumes "100 \<le> r" and "r < 600" and "web_Response E = aiohttp_Response"
  shows "normalize E request (PInt r) = Inl (TypeError ''__init__() takes 1 positional argument'')"
  using assms by (simp add: is_status_def new_response_def aiohttp_Response_def)

lemma normalize_status_pair:
  assumes "100 \<le> t" and "t < 600" and "web_Response E = aiohttp_Response"
  shows "normalize E request (PTuple [PInt t, m]) =
           Inr (PResponse \<lparr> resp_status = t, resp_body = py_str E m,
                              resp_content_type = ''text/plain'', resp_headers = [] \<rparr>)"
  using assms by (simp add: is_status_def new_response_def aiohttp_Response_def kw_get_def)

text \<open>
  C7. A handler that returns the integer 204 should get an empty response with status
  204. \<open>response_factory\<close> calls \<open>web.Response(r)\<close>, with the status as a positional
  argument; the constructor takes keyword arguments only, so the call raises TypeError and
  no response is made. The branch for a pair, a few lines below, passes \<open>status=t\<close> and
  gets the status (\<open>normalize_status_pair\<close>).
\<close>

theorem response_factory_status_204:
  "response_factory
     \<lparr> web_Response = aiohttp_Response, web_HTTPFound = hf, py_str = st, json_dumps = jd, render = rn \<rparr>
     (\<lambda>rq. ret (PInt 204)) request s =
   (Inl (TypeError ''__init__() takes 1 positional argument''), s)"
  by (simp add: response_factory_def ret_def is_status_def new_response_def aiohttp_Response_def)

end
